theory Spec2Isabelle
  imports Complex_Main
begin

section \<open>Sticky notes: the note windows and their JSON store\<close>

text \<open>
  A shallow embedding of \<^verbatim>\<open>main.py\<close>. The program keeps a class-level list
  \<^verbatim>\<open>StickyNote.notes\<close> of open note windows and one file,
  \<^verbatim>\<open>sticky_notes.json\<close>, holding a JSON array of records. The state of the
  program is the list of notes, the file, whether \<^verbatim>\<open>app.sticky_notes_app\<close> is set,
  the clipboard, and where the window system places a new window.

  The toolkit and the \<^verbatim>\<open>json\<close> module are not part of the program. They are
  modelled by what they are documented to do:
  \<^item> \<^verbatim>\<open>json.dump\<close> followed by \<^verbatim>\<open>json.load\<close> gives back the value written, so
    the file holds a parsed JSON value, or text that is not JSON;
  \<^item> a new top-level widget is at the origin and 640 by 480; \<^verbatim>\<open>show()\<close> of a window
    that was never moved leaves the place to the window system, which puts it at the
    position \<open>default_position\<close> of the state, the same throughout a run;
  \<^item> a Python int handed to the toolkit (\<^verbatim>\<open>QPoint\<close>, \<^verbatim>\<open>QSize\<close>, \<^verbatim>\<open>move\<close>,
    \<^verbatim>\<open>resize\<close>) must fit a C int; PyQt raises OverflowError otherwise;
  \<^item> \<^verbatim>\<open>QWidget.resize\<close> brings the size into the range of the minimum and the
    maximum size, \<^verbatim>\<open>QWidget.move\<close> sets the position;
  \<^item> \<^verbatim>\<open>QTextEdit.setPlainText\<close> emits \<^verbatim>\<open>textChanged\<close> at once, and the text that
    \<^verbatim>\<open>toPlainText\<close> gives back has its line ends as line feeds and its no-break spaces
    as spaces;
  \<^item> a string is the list of its characters, which are the code points below 256;
  \<^item> the pointer position of a mouse event is a pair of reals, where Qt's
    \<^verbatim>\<open>QPointF\<close> holds doubles. For a pointer at integer coordinates the two
    arithmetics give the same notes and the same errors, so what is proved of the values
    that a gesture computes is proved for such a pointer, or as bounds that hold in
    either arithmetic;
  \<^item> writing the file always succeeds.
\<close>

subsection \<open>JSON values and Python errors\<close>

datatype json =
    JNull
  | JBool bool
  | JInt int
  | JFloat real
  | JStr string
  | JArr "json list"
  | JObj "(string \<times> json) list"

text \<open>What \<^verbatim>\<open>json.load\<close> finds in the file: a document, or text it rejects.\<close>

datatype file_content = NotJson | Json json

datatype error =
  JSONDecodeError | KeyError string | TypeError | ValueError | AttributeError | OverflowError

definition and_then :: "error + 'a \<Rightarrow> ('a \<Rightarrow> error + 'b) \<Rightarrow> error + 'b" where
  "and_then r f = (case r of Inl e \<Rightarrow> Inl e | Inr v \<Rightarrow> f v)"

text \<open>Python's truth value of a loaded JSON value (\<^verbatim>\<open>if initial_text:\<close>).\<close>

fun truthy :: "json \<Rightarrow> bool" where
  "truthy JNull = False"
| "truthy (JBool b) = b"
| "truthy (JInt n) = (n \<noteq> 0)"
| "truthy (JFloat r) = (r \<noteq> 0)"
| "truthy (JStr s) = (s \<noteq> [])"
| "truthy (JArr xs) = (xs \<noteq> [])"
| "truthy (JObj kvs) = (kvs \<noteq> [])"

text \<open>\<^verbatim>\<open>note_data[key]\<close>: only a dict can be indexed by a string.\<close>

fun getitem :: "json \<Rightarrow> string \<Rightarrow> error + json" where
  "getitem (JObj kvs) k = (case map_of kvs k of None \<Rightarrow> Inl (KeyError k) | Some v \<Rightarrow> Inr v)"
| "getitem _ k = Inl TypeError"

text \<open>\<^verbatim>\<open>for note_data in notes_data\<close>: a list gives its elements, a dict its keys, a
  string its characters; nothing else can be iterated.\<close>

fun iter_items :: "json \<Rightarrow> error + json list" where
  "iter_items (JArr rs) = Inr rs"
| "iter_items (JObj kvs) = Inr (map (\<lambda>kv. JStr (fst kv)) kvs)"
| "iter_items (JStr s) = Inr (map (\<lambda>c. JStr [c]) s)"
| "iter_items _ = Inl TypeError"

text \<open>A Python int that PyQt converts to a C int: outside the range of 32 bits the
  conversion raises OverflowError.\<close>

definition INT_MIN :: int where "INT_MIN = - 2147483648"
definition INT_MAX :: int where "INT_MAX = 2147483647"

definition fits_c_int :: "int \<Rightarrow> bool" where
  "fits_c_int v = (INT_MIN \<le> v \<and> v \<le> INT_MAX)"

definition c_int :: "int \<Rightarrow> error + int" where
  "c_int v = (if fits_c_int v then Inr v else Inl OverflowError)"

text \<open>An argument of \<^verbatim>\<open>QPoint(int, int)\<close> or \<^verbatim>\<open>QSize(int, int)\<close>: an int (a bool
  is one in Python) that fits a C int; anything else is a TypeError.\<close>

fun int_arg :: "json \<Rightarrow> error + int" where
  "int_arg (JInt n) = c_int n"
| "int_arg (JBool b) = Inr (if b then 1 else 0)"
| "int_arg _ = Inl TypeError"

definition QPoint :: "json \<Rightarrow> json \<Rightarrow> error + int \<times> int" where
  "QPoint a b = and_then (int_arg a) (\<lambda>px. and_then (int_arg b) (\<lambda>py. Inr (px, py)))"

definition QSize :: "json \<Rightarrow> json \<Rightarrow> error + int \<times> int" where
  "QSize a b = and_then (int_arg a) (\<lambda>w. and_then (int_arg b) (\<lambda>h. Inr (w, h)))"

text \<open>The truth values PyQt gives the two classes (\<^verbatim>\<open>if pos:\<close>, \<^verbatim>\<open>if size:\<close>): a point
  is false when it is null (both coordinates 0), a size is false when it is invalid (a
  negative width or height).\<close>

definition QPoint_bool :: "int \<times> int \<Rightarrow> bool" where
  "QPoint_bool p = (\<not> (fst p = 0 \<and> snd p = 0))"

definition QSize_bool :: "int \<times> int \<Rightarrow> bool" where
  "QSize_bool sz = (0 \<le> fst sz \<and> 0 \<le> snd sz)"

subsection \<open>Notes and the application state\<close>

text \<open>The class attribute \<^verbatim>\<open>StickyNote.notes\<close> is the field \<open>note_list\<close> of the state.
  A note window: the text of its editor, its geometry, and the four attributes
  \<^verbatim>\<open>_dragging\<close>, \<^verbatim>\<open>_resizing\<close>, \<^verbatim>\<open>_start_pos\<close>, \<^verbatim>\<open>_start_size\<close> of the
  gesture in progress (\<^verbatim>\<open>None\<close> is \<open>None\<close>).\<close>

record StickyNote =
  plain_text :: string
  pos_x :: int
  pos_y :: int
  width :: int
  height :: int
  dragging :: bool
  resizing :: bool
  start_pos :: "(real \<times> real) option"
  start_size :: "(int \<times> int) option"

record app =
  note_list :: "StickyNote list"
  store :: "file_content option"
  sticky_notes_app :: bool
  clipboard :: string
  default_position :: "int \<times> int"

text \<open>\<^verbatim>\<open>setMinimumSize(100, 100)\<close> and \<^verbatim>\<open>resize_margin = 25\<close> are set once in
  \<^verbatim>\<open>__init__\<close>, the same for every note, and never changed.\<close>

definition minimumWidth :: int where "minimumWidth = 100"
definition minimumHeight :: int where "minimumHeight = 100"
definition QWIDGETSIZE_MAX :: int where "QWIDGETSIZE_MAX = 16777215"
definition resize_margin :: int where "resize_margin = 25"

text \<open>\<^verbatim>\<open>resize(w, h)\<close> and \<^verbatim>\<open>move(a, b)\<close> with Python ints: both arguments are
  converted to C ints first.\<close>

definition resize :: "int \<Rightarrow> int \<Rightarrow> StickyNote \<Rightarrow> error + StickyNote" where
  "resize w h n =
     and_then (c_int w) (\<lambda>cw.
     and_then (c_int h) (\<lambda>ch.
       Inr (n\<lparr>width := max (min cw QWIDGETSIZE_MAX) minimumWidth,
              height := max (min ch QWIDGETSIZE_MAX) minimumHeight\<rparr>)))"

definition move :: "int \<Rightarrow> int \<Rightarrow> StickyNote \<Rightarrow> error + StickyNote" where
  "move a b n =
     and_then (c_int a) (\<lambda>ca.
     and_then (c_int b) (\<lambda>cb.
       Inr (n\<lparr>pos_x := ca, pos_y := cb\<rparr>)))"

text \<open>The text that \<^verbatim>\<open>toPlainText\<close> gives back after \<^verbatim>\<open>setPlainText(t)\<close>: a carriage
  return with or without a line feed after it is one line feed, and a no-break space is
  a space.\<close>

fun qt_plain :: "string \<Rightarrow> string" where
  "qt_plain [] = []"
| "qt_plain [c] = [if c = CHR 0x0D then CHR 0x0A else if c = CHR 0xA0 then CHR 0x20 else c]"
| "qt_plain (c # d # cs) =
     (if c = CHR 0x0D \<and> d = CHR 0x0A then CHR 0x0A # qt_plain cs
      else if c = CHR 0x0D then CHR 0x0A # qt_plain (d # cs)
      else if c = CHR 0xA0 then CHR 0x20 # qt_plain (d # cs)
      else c # qt_plain (d # cs))"

text \<open>\<^verbatim>\<open>self.show()\<close> of a window that was never moved, placed at \<open>p\<close>.\<close>

definition show_note :: "int \<times> int \<Rightarrow> StickyNote \<Rightarrow> StickyNote" where
  "show_note p n = n\<lparr>pos_x := fst p, pos_y := snd p\<rparr>"

text \<open>The window as \<^verbatim>\<open>super().__init__()\<close> leaves it.\<close>

definition new_widget :: StickyNote where
  "new_widget =
     \<lparr>plain_text = [], pos_x = 0, pos_y = 0, width = 640, height = 480,
      dragging = False, resizing = False, start_pos = None, start_size = None\<rparr>"

text \<open>A method of a note acts on \<^verbatim>\<open>self\<close>, which is the note at some index of the list.\<close>

definition update_note :: "nat \<Rightarrow> (StickyNote \<Rightarrow> StickyNote) \<Rightarrow> app \<Rightarrow> app" where
  "update_note i f s = s\<lparr>note_list := (note_list s)[i := f (note_list s ! i)]\<rparr>"

text \<open>The same for a method that can raise.\<close>

definition try_update_note :: "nat \<Rightarrow> (StickyNote \<Rightarrow> error + StickyNote) \<Rightarrow> app \<Rightarrow> error + app" where
  "try_update_note i f s =
     and_then (f (note_list s ! i)) (\<lambda>n. Inr (s\<lparr>note_list := (note_list s)[i := n]\<rparr>))"

subsection \<open>Saving\<close>

definition note_record :: "StickyNote \<Rightarrow> json" where
  "note_record n =
     JObj [(''text'', JStr (plain_text n)), (''x'', JInt (pos_x n)), (''y'', JInt (pos_y n)),
           (''width'', JInt (width n)), (''height'', JInt (height n))]"

definition save_notes :: "app \<Rightarrow> app" where
  "save_notes s = s\<lparr>store := Some (Json (JArr (map note_record (note_list s))))\<rparr>"

definition on_text_changed :: "app \<Rightarrow> app" where
  "on_text_changed s = (if sticky_notes_app s then save_notes s else s)"

definition quit_app :: "app \<Rightarrow> app" where
  "quit_app s = save_notes s"

subsection \<open>Creating notes\<close>

text \<open>\<^verbatim>\<open>StickyNote.__init__\<close>: the new window joins the end of the list first; a true
  initial text is put into the editor, which emits \<^verbatim>\<open>textChanged\<close> while the window
  still has the size the toolkit gave it; then the window is resized to 200 by 200,
  the gesture attributes are set, and the window is shown.\<close>

definition StickyNote_init :: "json \<Rightarrow> app \<Rightarrow> error + app" where
  "StickyNote_init initial_text s =
     (let self = length (note_list s);
          s1 = s\<lparr>note_list := note_list s @ [new_widget]\<rparr>
      in and_then
           (if truthy initial_text
            then (case initial_text of
                    JStr t \<Rightarrow>
                      Inr (on_text_changed (update_note self (\<lambda>n. n\<lparr>plain_text := qt_plain t\<rparr>) s1))
                  | _ \<Rightarrow> Inl TypeError)
            else Inr s1) (\<lambda>s2.
         and_then (try_update_note self (resize 200 200) s2) (\<lambda>s3.
           Inr (update_note self
                  (\<lambda>n. show_note (default_position s)
                         (n\<lparr>dragging := False, resizing := False,
                            start_pos := None, start_size := None\<rparr>)) s3))))"

definition create_note_safe ::
  "json \<Rightarrow> (int \<times> int) option \<Rightarrow> (int \<times> int) option \<Rightarrow> app \<Rightarrow> error + app" where
  "create_note_safe txt pos sz s =
     (let self = length (note_list s) in
      and_then (StickyNote_init txt s) (\<lambda>s1.
      and_then (case pos of
                  Some p \<Rightarrow>
                    if QPoint_bool p then try_update_note self (move (fst p) (snd p)) s1 else Inr s1
                | None \<Rightarrow> Inr s1) (\<lambda>s2.
        case sz of
          Some z \<Rightarrow>
            if QSize_bool z then try_update_note self (resize (fst z) (snd z)) s2 else Inr s2
        | None \<Rightarrow> Inr s2)))"

text \<open>The hotkey signal carries no argument, so the text is the default \<^verbatim>\<open>""\<close>; the
  tray action's \<^verbatim>\<open>triggered\<close> signal carries \<^verbatim>\<open>checked = False\<close>, which arrives as
  the text.\<close>

definition hotkey_note :: "app \<Rightarrow> error + app" where
  "hotkey_note s = create_note_safe (JStr []) None None s"

definition tray_new_note :: "app \<Rightarrow> error + app" where
  "tray_new_note s = create_note_safe (JBool False) None None s"

text \<open>\<^verbatim>\<open>create_new_note\<close> is a class method: it receives the class, and reads the
  position of \<^verbatim>\<open>cls.notes[-2]\<close>, the note that was last in the list.\<close>

definition create_new_note :: "app \<Rightarrow> error + app" where
  "create_new_note s =
     and_then (StickyNote_init (JStr []) s) (\<lambda>s1.
       if length (note_list s1) > 1
       then (let current = note_list s1 ! (length (note_list s1) - 2)
             in try_update_note (length (note_list s))
                  (move (pos_x current + 20) (pos_y current + 20)) s1)
       else Inr s1)"

text \<open>The \<^verbatim>\<open>clicked\<close> signal of the "+" button of the note at index \<open>i\<close> is connected to
  \<^verbatim>\<open>self.create_new_note\<close>, the class method bound to the class.\<close>

definition new_btn_clicked :: "nat \<Rightarrow> app \<Rightarrow> error + app" where
  "new_btn_clicked i s = create_new_note s"

subsection \<open>Loading\<close>

definition load_record :: "json \<Rightarrow> app \<Rightarrow> error + app" where
  "load_record note_data s =
     and_then (getitem note_data ''text'') (\<lambda>t.
     and_then (getitem note_data ''x'') (\<lambda>a.
     and_then (getitem note_data ''y'') (\<lambda>b.
     and_then (QPoint a b) (\<lambda>pos.
     and_then (getitem note_data ''width'') (\<lambda>c.
     and_then (getitem note_data ''height'') (\<lambda>d.
     and_then (QSize c d) (\<lambda>sz.
       create_note_safe t (Some pos) (Some sz) s)))))))"

fun load_loop :: "json list \<Rightarrow> app \<Rightarrow> error + app" where
  "load_loop [] s = Inr s"
| "load_loop (note_data # rest) s = and_then (load_record note_data s) (load_loop rest)"

definition load_notes :: "app \<Rightarrow> error + app" where
  "load_notes s =
     (case store s of
        None \<Rightarrow> Inr s
      | Some NotJson \<Rightarrow> Inl JSONDecodeError
      | Some (Json notes_data) \<Rightarrow> and_then (iter_items notes_data) (\<lambda>rs. load_loop rs s))"

text \<open>The state in which \<^verbatim>\<open>StickyNotesApp.__init__\<close> calls \<^verbatim>\<open>load_notes\<close>: no note
  yet, the file \<open>f\<close> as the last run left it, the attribute set, on a desktop that places
  new windows at \<open>p\<close>.\<close>

definition startup :: "int \<times> int \<Rightarrow> file_content option \<Rightarrow> app" where
  "startup p f =
     \<lparr>note_list = [], store = f, sticky_notes_app = True, clipboard = [], default_position = p\<rparr>"

subsection \<open>Editing and deleting\<close>

text \<open>The user changes the text of the note at index \<open>i\<close>, so that \<^verbatim>\<open>toPlainText\<close> gives
  \<open>t\<close> from then on: the editor emits \<^verbatim>\<open>textChanged\<close>, which is connected to
  \<^verbatim>\<open>on_text_changed\<close>.\<close>

definition textChanged :: "nat \<Rightarrow> string \<Rightarrow> app \<Rightarrow> app" where
  "textChanged i t s = on_text_changed (update_note i (\<lambda>n. n\<lparr>plain_text := t\<rparr>) s)"

text \<open>\<^verbatim>\<open>delete_note\<close> of the note at index \<open>i\<close>. \<^verbatim>\<open>list.remove\<close> raises ValueError
  for an object that is not in the list.\<close>

definition delete_note :: "nat \<Rightarrow> app \<Rightarrow> error + app" where
  "delete_note i s =
     (if i < length (note_list s)
      then (let s1 = s\<lparr>note_list := take i (note_list s) @ drop (Suc i) (note_list s)\<rparr>
            in Inr (if sticky_notes_app s1 then save_notes s1 else s1))
      else Inl ValueError)"

subsection \<open>Mouse gestures\<close>

datatype MouseButton = LeftButton | RightButton | MiddleButton | OtherButton

datatype KeyboardModifier =
  ShiftModifier | ControlModifier | AltModifier | MetaModifier | KeypadModifier | GroupSwitchModifier

record mouse_event =
  button :: MouseButton
  modifiers :: "KeyboardModifier set"
  position :: "real \<times> real"

text \<open>Python's \<^verbatim>\<open>int()\<close> of a float: the fraction is cut off, towards zero.\<close>

definition py_int :: "real \<Rightarrow> int" where
  "py_int r = (if r < 0 then \<lceil>r\<rceil> else \<lfloor>r\<rfloor>)"

text \<open>The style sheet flash of \<^verbatim>\<open>copy_with_feedback\<close> is presentation only.\<close>

definition copy_with_feedback :: "nat \<Rightarrow> app \<Rightarrow> app" where
  "copy_with_feedback i s = s\<lparr>clipboard := plain_text (note_list s ! i)\<rparr>"

definition mousePressEvent :: "nat \<Rightarrow> mouse_event \<Rightarrow> app \<Rightarrow> app" where
  "mousePressEvent i ev s =
     (if button ev = LeftButton
      then (if modifiers ev = {ControlModifier}
            then copy_with_feedback i s
            else (let pos = position ev; self = note_list s ! i
                  in if fst pos > real_of_int (width self - resize_margin) \<and>
                        snd pos > real_of_int (height self - resize_margin) \<and>
                        snd pos > 40
                     then update_note i
                            (\<lambda>n. n\<lparr>resizing := True, start_pos := Some pos,
                                   start_size := Some (width n, height n)\<rparr>) s
                     else update_note i (\<lambda>n. n\<lparr>dragging := True, start_pos := Some pos\<rparr>) s))
      else s)"

text \<open>\<^verbatim>\<open>self._start_size.width()\<close> is an AttributeError when \<^verbatim>\<open>_start_size\<close> is
  \<^verbatim>\<open>None\<close>.\<close>

definition mouseMoveEvent :: "nat \<Rightarrow> mouse_event \<Rightarrow> app \<Rightarrow> error + app" where
  "mouseMoveEvent i ev s =
     (let self = note_list s ! i in
      if resizing self \<and> start_pos self \<noteq> None
      then (case start_size self of
              None \<Rightarrow> Inl AttributeError
            | Some sz \<Rightarrow>
                (let dx = fst (position ev) - fst (the (start_pos self));
                     dy = snd (position ev) - snd (the (start_pos self));
                     new_width = max (real_of_int (fst sz) + dx) (real_of_int minimumWidth);
                     new_height = max (real_of_int (snd sz) + dy) (real_of_int minimumHeight)
                 in try_update_note i (resize (py_int new_width) (py_int new_height)) s))
      else if dragging self \<and> start_pos self \<noteq> None
      then (let dx = fst (position ev) - fst (the (start_pos self));
                dy = snd (position ev) - snd (the (start_pos self))
            in try_update_note i (\<lambda>n. move (pos_x n + py_int dx) (pos_y n + py_int dy) n) s)
      else Inr s)"

definition mouseReleaseEvent :: "nat \<Rightarrow> mouse_event \<Rightarrow> app \<Rightarrow> app" where
  "mouseReleaseEvent i ev s =
     update_note i (\<lambda>n. n\<lparr>dragging := False, resizing := False,
                           start_pos := None, start_size := None\<rparr>) s"

subsection \<open>Runs of the program\<close>

text \<open>What can happen to the running program. An event of a note names the index of
  its window in the list; a window that is not open receives nothing.\<close>

datatype event =
    Hotkey
  | TrayNewNote
  | TextChanged nat string
  | NewBtnClicked nat
  | CloseBtnClicked nat
  | MousePress nat mouse_event
  | MouseMove nat mouse_event
  | MouseRelease nat mouse_event

fun step :: "event \<Rightarrow> app \<Rightarrow> error + app" where
  "step Hotkey s = hotkey_note s"
| "step TrayNewNote s = tray_new_note s"
| "step (TextChanged i t) s = (if i < length (note_list s) then Inr (textChanged i t s) else Inr s)"
| "step (NewBtnClicked i) s = (if i < length (note_list s) then new_btn_clicked i s else Inr s)"
| "step (CloseBtnClicked i) s = (if i < length (note_list s) then delete_note i s else Inr s)"
| "step (MousePress i ev) s = (if i < length (note_list s) then Inr (mousePressEvent i ev s) else Inr s)"
| "step (MouseMove i ev) s = (if i < length (note_list s) then mouseMoveEvent i ev s else Inr s)"
| "step (MouseRelease i ev) s = (if i < length (note_list s) then Inr (mouseReleaseEvent i ev s) else Inr s)"

fun run :: "event list \<Rightarrow> app \<Rightarrow> error + app" where
  "run [] s = Inr s"
| "run (e # es) s = and_then (step e s) (run es)"

text \<open>A whole run: start with the file \<open>f\<close>, load it, then handle the events.\<close>

definition session :: "int \<times> int \<Rightarrow> file_content option \<Rightarrow> event list \<Rightarrow> error + app" where
  "session p f evs = and_then (load_notes (startup p f)) (run evs)"

subsection \<open>Predicates on notes\<close>

text \<open>The five persisted fields of a note.\<close>

definition note_data :: "StickyNote \<Rightarrow> string \<times> int \<times> int \<times> int \<times> int" where
  "note_data n = (plain_text n, pos_x n, pos_y n, width n, height n)"

text \<open>The sizes a window of the program can have.\<close>

definition size_ok :: "StickyNote \<Rightarrow> bool" where
  "size_ok n =
     (minimumWidth \<le> width n \<and> width n \<le> QWIDGETSIZE_MAX \<and>
      minimumHeight \<le> height n \<and> height n \<le> QWIDGETSIZE_MAX)"

text \<open>A resize gesture in progress has its start size, which is a size of a window.\<close>

definition gesture_ok :: "StickyNote \<Rightarrow> bool" where
  "gesture_ok n =
     (resizing n \<longrightarrow>
        (case start_size n of
           None \<Rightarrow> False
         | Some z \<Rightarrow> minimumWidth \<le> fst z \<and> fst z \<le> QWIDGETSIZE_MAX \<and>
                     minimumHeight \<le> snd z \<and> snd z \<le> QWIDGETSIZE_MAX))"

definition note_inv :: "StickyNote \<Rightarrow> bool" where
  "note_inv n = (size_ok n \<and> gesture_ok n)"

text \<open>What holds of the state throughout a run.\<close>

definition app_ok :: "app \<Rightarrow> bool" where
  "app_ok s = (list_all note_inv (note_list s) \<and> sticky_notes_app s)"

text \<open>The note that \<^verbatim>\<open>StickyNote(t)\<close> leaves at the end of the list, on a desktop that
  places new windows at \<open>p\<close>.\<close>

definition fresh_note :: "int \<times> int \<Rightarrow> string \<Rightarrow> StickyNote" where
  "fresh_note p t =
     \<lparr>plain_text = t, pos_x = fst p, pos_y = snd p, width = 200, height = 200,
      dragging = False, resizing = False, start_pos = None, start_size = None\<rparr>"

text \<open>A note that loading puts back as it was: its size is one a window can have, its
  position is one of C ints, its text is one that \<^verbatim>\<open>toPlainText\<close> gives, and it is not
  at the origin, unless new windows are placed there anyway.\<close>

definition restorable :: "int \<times> int \<Rightarrow> StickyNote \<Rightarrow> bool" where
  "restorable p n =
     (size_ok n \<and> fits_c_int (pos_x n) \<and> fits_c_int (pos_y n) \<and>
      qt_plain (plain_text n) = plain_text n \<and>
      (QPoint_bool (pos_x n, pos_y n) \<or> p = (0, 0)))"

subsection \<open>The history of a run\<close>

text \<open>The states of a run, one after each event, the first being the state the events
  start from.\<close>

fun trace :: "event list \<Rightarrow> app \<Rightarrow> error + app list" where
  "trace [] s = Inr [s]"
| "trace (e # es) s =
     and_then (step e s) (\<lambda>s'. and_then (trace es s') (\<lambda>ss. Inr (s # ss)))"

text \<open>The file that a save from the list \<open>ns\<close> writes.\<close>

definition written_from :: "StickyNote list \<Rightarrow> file_content option" where
  "written_from ns = Some (Json (JArr (map note_record ns)))"

text \<open>From one list of notes to the next the order is kept: the list is the same but
  for the note at one index, or it has one more note at its end, or one note is taken
  out of it.\<close>

definition order_kept :: "StickyNote list \<Rightarrow> StickyNote list \<Rightarrow> bool" where
  "order_kept xs ys =
     (ys = xs \<or>
      list_ex (\<lambda>i. ys = xs[i := ys ! i]) [0..<length xs] \<or>
      (ys \<noteq> [] \<and> butlast ys = xs) \<or>
      list_ex (\<lambda>i. ys = take i xs @ drop (Suc i) xs) [0..<length xs])"

subsection \<open>Example states\<close>

text \<open>Two open notes, nothing saved yet, on a desktop that places new windows at
  (860, 440).\<close>

definition two_notes :: app where
  "two_notes =
     \<lparr>note_list =
        [\<lparr>plain_text = ''buy milk'', pos_x = 30, pos_y = 40, width = 250, height = 180,
          dragging = False, resizing = False, start_pos = None, start_size = None\<rparr>,
         \<lparr>plain_text = [], pos_x = 500, pos_y = 500, width = 200, height = 200,
          dragging = False, resizing = False, start_pos = None, start_size = None\<rparr>],
      store = None, sticky_notes_app = True, clipboard = [], default_position = (860, 440)\<rparr>"

text \<open>One open note, at the top left corner of the screen.\<close>

definition corner_note :: app where
  "corner_note =
     \<lparr>note_list =
        [\<lparr>plain_text = ''todo'', pos_x = 0, pos_y = 0, width = 200, height = 200,
          dragging = False, resizing = False, start_pos = None, start_size = None\<rparr>],
      store = None, sticky_notes_app = True, clipboard = [], default_position = (860, 440)\<rparr>"

subsection \<open>The shape of a saved file\<close>

definition record_keys :: "string list" where
  "record_keys = [''text'', ''x'', ''y'', ''width'', ''height'']"

fun is_str :: "json \<Rightarrow> bool" where
  "is_str (JStr t) = True"
| "is_str _ = False"

fun is_int :: "json \<Rightarrow> bool" where
  "is_int (JInt n) = True"
| "is_int _ = False"

text \<open>An object with exactly the five keys, in this order, a string for the text and
  integers for the geometry.\<close>

fun is_note_record :: "json \<Rightarrow> bool" where
  "is_note_record (JObj kvs) =
     (map fst kvs = record_keys \<and>
      list_all2 (\<lambda>p v. p v) [is_str, is_int, is_int, is_int, is_int] (map snd kvs))"
| "is_note_record _ = False"

fun is_note_array :: "file_content option \<Rightarrow> bool" where
  "is_note_array (Some (Json (JArr rs))) = list_all is_note_record rs"
| "is_note_array _ = False"

text \<open>A record that lacks one of the five keys.\<close>

fun missing_key :: "json \<Rightarrow> bool" where
  "missing_key (JObj kvs) = list_ex (\<lambda>k. map_of kvs k = None) record_keys"
| "missing_key _ = False"

subsection \<open>Example gestures\<close>

text \<open>A left press in the lower right corner of a 200 by 200 note, a move far up and
  to the left, a left press in the body of a note, a move by (30, 20) from there, and a
  press of the right button.\<close>

definition press_corner :: mouse_event where
  "press_corner = \<lparr>button = LeftButton, modifiers = {}, position = (190, 190)\<rparr>"

definition move_far :: mouse_event where
  "move_far = \<lparr>button = LeftButton, modifiers = {}, position = (-1000, -1000)\<rparr>"

definition press_body :: mouse_event where
  "press_body = \<lparr>button = LeftButton, modifiers = {}, position = (10, 50)\<rparr>"

definition move_body :: mouse_event where
  "move_body = \<lparr>button = LeftButton, modifiers = {}, position = (40, 70)\<rparr>"

definition right_press :: mouse_event where
  "right_press = \<lparr>button = RightButton, modifiers = {}, position = (190, 190)\<rparr>"

text \<open>The state after the hotkey in a run that started without a file.\<close>

definition one_note :: app where
  "one_note =
     \<lparr>note_list = [fresh_note (860, 440) []], store = None, sticky_notes_app = True,
      clipboard = [], default_position = (860, 440)\<rparr>"

section \<open>Basic facts\<close>

lemma and_then_simps [simp]:
  "and_then (Inl e) f = Inl e"
  "and_then (Inr v) f = f v"
  by (simp_all add: and_then_def)

lemma and_then_InrE:
  assumes "and_then r f = Inr v"
  obtains u where "r = Inr u" and "f u = Inr v"
  using assms by (cases r) simp_all

lemma and_then_InlE:
  assumes "and_then r f = Inl e"
  obtains "r = Inl e" | u where "r = Inr u" and "f u = Inl e"
  using assms by (cases r) simp_all

lemma update_note_fields [simp]:
  "note_list (update_note i f s) = (note_list s)[i := f (note_list s ! i)]"
  "store (update_note i f s) = store s"
  "sticky_notes_app (update_note i f s) = sticky_notes_app s"
  "clipboard (update_note i f s) = clipboard s"
  "default_position (update_note i f s) = default_position s"
  by (simp_all add: update_note_def)

lemma save_notes_fields [simp]:
  "note_list (save_notes s) = note_list s"
  "store (save_notes s) = Some (Json (JArr (map note_record (note_list s))))"
  "sticky_notes_app (save_notes s) = sticky_notes_app s"
  "clipboard (save_notes s) = clipboard s"
  "default_position (save_notes s) = default_position s"
  by (simp_all add: save_notes_def)

lemma on_text_changed_fields [simp]:
  "note_list (on_text_changed s) = note_list s"
  "sticky_notes_app (on_text_changed s) = sticky_notes_app s"
  "clipboard (on_text_changed s) = clipboard s"
  "default_position (on_text_changed s) = default_position s"
  by (simp_all add: on_text_changed_def)

text \<open>The conversion to a C int, and the two methods that convert their arguments.\<close>

lemma c_int_Inr: "c_int v = Inr u \<longleftrightarrow> fits_c_int v \<and> u = v"
  by (auto simp: c_int_def)

lemma c_int_Inl: "c_int v = Inl e \<longleftrightarrow> \<not> fits_c_int v \<and> e = OverflowError"
  by (auto simp: c_int_def)

lemma c_int_fits: "fits_c_int v \<Longrightarrow> c_int v = Inr v"
  by (simp add: c_int_def)

lemma resize_fits:
  assumes "fits_c_int w" and "fits_c_int h"
  shows "resize w h n =
           Inr (n\<lparr>width := max (min w QWIDGETSIZE_MAX) minimumWidth,
                  height := max (min h QWIDGETSIZE_MAX) minimumHeight\<rparr>)"
  using assms by (simp add: resize_def c_int_fits)

lemma resize_Inr:
  assumes "resize w h n = Inr n'"
  shows "fits_c_int w \<and> fits_c_int h \<and>
         n' = n\<lparr>width := max (min w QWIDGETSIZE_MAX) minimumWidth,
                height := max (min h QWIDGETSIZE_MAX) minimumHeight\<rparr>"
  using assms unfolding resize_def
  by (auto elim!: and_then_InrE simp: c_int_Inr)

lemma resize_Inl:
  assumes "resize w h n = Inl e"
  shows "e = OverflowError \<and> \<not> (fits_c_int w \<and> fits_c_int h)"
  using assms unfolding resize_def
  by (auto elim!: and_then_InlE simp: c_int_Inl c_int_Inr)

lemma move_fits:
  assumes "fits_c_int a" and "fits_c_int b"
  shows "move a b n = Inr (n\<lparr>pos_x := a, pos_y := b\<rparr>)"
  using assms by (simp add: move_def c_int_fits)

lemma move_Inr:
  assumes "move a b n = Inr n'"
  shows "fits_c_int a \<and> fits_c_int b \<and> n' = n\<lparr>pos_x := a, pos_y := b\<rparr>"
  using assms unfolding move_def
  by (auto elim!: and_then_InrE simp: c_int_Inr)

lemma move_Inl:
  assumes "move a b n = Inl e"
  shows "e = OverflowError \<and> \<not> (fits_c_int a \<and> fits_c_int b)"
  using assms unfolding move_def
  by (auto elim!: and_then_InlE simp: c_int_Inl c_int_Inr)

lemma try_update_note_Inr:
  "try_update_note i f s = Inr s' \<longleftrightarrow>
     (\<exists>n. f (note_list s ! i) = Inr n \<and> s' = s\<lparr>note_list := (note_list s)[i := n]\<rparr>)"
  by (cases "f (note_list s ! i)") (auto simp: try_update_note_def)

lemma try_update_note_Inl:
  "try_update_note i f s = Inl e \<longleftrightarrow> f (note_list s ! i) = Inl e"
  by (cases "f (note_list s ! i)") (auto simp: try_update_note_def)

lemma try_update_note_ok:
  "f (note_list s ! i) = Inr n \<Longrightarrow>
   try_update_note i f s = Inr (s\<lparr>note_list := (note_list s)[i := n]\<rparr>)"
  by (simp add: try_update_note_def)

lemma fits_small [simp]: "fits_c_int 200" "fits_c_int 0" "fits_c_int 1"
  by (simp_all add: fits_c_int_def INT_MIN_def INT_MAX_def)

lemma resize_200: "resize 200 200 n = Inr (n\<lparr>width := 200, height := 200\<rparr>)"
  by (simp add: resize_fits QWIDGETSIZE_MAX_def minimumWidth_def minimumHeight_def)

lemma qt_plain_Nil [simp]: "qt_plain t = [] \<longleftrightarrow> t = []"
  by (induction t rule: qt_plain.induct) auto

text \<open>The constructor with a string never fails. It saves exactly when the string is
  not empty, and what it saves then is the new window before it is resized.\<close>

lemma StickyNote_init_str:
  "\<exists>s'. StickyNote_init (JStr t) s = Inr s' \<and>
        note_list s' = note_list s @ [fresh_note (default_position s) (qt_plain t)] \<and>
        sticky_notes_app s' = sticky_notes_app s \<and> clipboard s' = clipboard s \<and>
        default_position s' = default_position s \<and>
        store s' = (if t \<noteq> [] \<and> sticky_notes_app s
                    then written_from (note_list s @ [new_widget\<lparr>plain_text := qt_plain t\<rparr>])
                    else store s)"
  by (simp add: StickyNote_init_def Let_def try_update_note_def resize_200 show_note_def
      fresh_note_def new_widget_def on_text_changed_def written_from_def)


section \<open>Saving and loading again\<close>

text \<open>A record with a string, C ints and a size that a window can have is loaded as a
  note with that text and size. It is moved to the position of the record unless that
  is the origin: \<^verbatim>\<open>if pos:\<close> is false for the null point, and the note stays where the
  window system put it.\<close>

lemma create_note_safe_str:
  assumes "minimumWidth \<le> w" "w \<le> QWIDGETSIZE_MAX" "minimumHeight \<le> h" "h \<le> QWIDGETSIZE_MAX"
    and "fits_c_int a" "fits_c_int b"
  shows "\<exists>s'. create_note_safe (JStr t) (Some (a, b)) (Some (w, h)) s = Inr s' \<and>
           note_list s' = note_list s @
             [(fresh_note (if QPoint_bool (a, b) then (a, b) else default_position s) (qt_plain t))
                \<lparr>width := w, height := h\<rparr>] \<and>
           sticky_notes_app s' = sticky_notes_app s \<and> clipboard s' = clipboard s \<and>
           default_position s' = default_position s \<and>
           store s' = (if t \<noteq> [] \<and> sticky_notes_app s
                       then written_from (note_list s @ [new_widget\<lparr>plain_text := qt_plain t\<rparr>])
                       else store s)"
proof -
  obtain s1 where s1: "StickyNote_init (JStr t) s = Inr s1"
    "note_list s1 = note_list s @ [fresh_note (default_position s) (qt_plain t)]"
    "sticky_notes_app s1 = sticky_notes_app s" "clipboard s1 = clipboard s"
    "default_position s1 = default_position s"
    "store s1 = (if t \<noteq> [] \<and> sticky_notes_app s
                 then written_from (note_list s @ [new_widget\<lparr>plain_text := qt_plain t\<rparr>])
                 else store s)"
    using StickyNote_init_str [of t s] by blast
  have sz: "QSize_bool (w, h)"
    using assms by (simp add: QSize_bool_def minimumWidth_def minimumHeight_def)
  have "fits_c_int w" "fits_c_int h"
    using assms(1-4)
    by (simp_all add: fits_c_int_def INT_MIN_def INT_MAX_def QWIDGETSIZE_MAX_def
        minimumWidth_def minimumHeight_def)
  then have rs: "resize w h n = Inr (n\<lparr>width := w, height := h\<rparr>)" for n
    using assms(1-4) by (simp add: resize_fits)
  have mv: "move a b n = Inr (n\<lparr>pos_x := a, pos_y := b\<rparr>)" for n
    using assms(5,6) by (rule move_fits)
  show ?thesis
    using s1 sz
    by (simp add: create_note_safe_def Let_def try_update_note_def rs mv fresh_note_def)
qed

lemma load_record_note_record:
  assumes "restorable (default_position s) n"
  shows "\<exists>s'. load_record (note_record n) s = Inr s' \<and>
           map note_data (note_list s') = map note_data (note_list s) @ [note_data n] \<and>
           default_position s' = default_position s"
proof -
  let ?p = "if QPoint_bool (pos_x n, pos_y n) then (pos_x n, pos_y n) else default_position s"
  have pos: "?p = (pos_x n, pos_y n)"
    using assms by (auto simp: restorable_def QPoint_bool_def)
  have plain: "qt_plain (plain_text n) = plain_text n"
    and fits: "fits_c_int (pos_x n)" "fits_c_int (pos_y n)"
    and "fits_c_int (width n)" "fits_c_int (height n)"
    using assms
    by (simp_all add: restorable_def size_ok_def fits_c_int_def INT_MIN_def INT_MAX_def
        QWIDGETSIZE_MAX_def minimumWidth_def minimumHeight_def)
  then have args: "QPoint (JInt (pos_x n)) (JInt (pos_y n)) = Inr (pos_x n, pos_y n)"
    "QSize (JInt (width n)) (JInt (height n)) = Inr (width n, height n)"
    by (simp_all add: QPoint_def QSize_def c_int_fits)
  obtain s' where s': "create_note_safe (JStr (plain_text n)) (Some (pos_x n, pos_y n)) (Some (width n, height n)) s = Inr s'"
    "note_list s' = note_list s @ [(fresh_note ?p (qt_plain (plain_text n)))\<lparr>width := width n, height := height n\<rparr>]"
    "default_position s' = default_position s"
    using create_note_safe_str [of "width n" "height n" "pos_x n" "pos_y n" "plain_text n" s] assms fits
    by (auto simp: restorable_def size_ok_def)
  have "load_record (note_record n) s = Inr s'"
    using s'(1) args by (simp add: load_record_def note_record_def)
  moreover have "note_data ((fresh_note ?p (qt_plain (plain_text n)))\<lparr>width := width n, height := height n\<rparr>) = note_data n"
    unfolding pos plain by (simp add: note_data_def fresh_note_def)
  ultimately show ?thesis
    using s'(2,3) by simp
qed

lemma load_loop_note_records:
  assumes "list_all (restorable (default_position s)) ns"
  shows "\<exists>s'. load_loop (map note_record ns) s = Inr s' \<and>
           map note_data (note_list s') = map note_data (note_list s) @ map note_data ns"
  using assms
proof (induction ns arbitrary: s)
  case Nil
  then show ?case by simp
next
  case (Cons n ns)
  then have "restorable (default_position s) n"
    and rest: "list_all (restorable (default_position s)) ns" by simp_all
  then obtain s1 where s1: "load_record (note_record n) s = Inr s1"
    "map note_data (note_list s1) = map note_data (note_list s) @ [note_data n]"
    "default_position s1 = default_position s"
    using load_record_note_record [of s n] by blast
  obtain s' where "load_loop (map note_record ns) s1 = Inr s'"
    "map note_data (note_list s') = map note_data (note_list s1) @ map note_data ns"
    using Cons.IH [of s1] rest s1(3) by auto
  with s1 show ?case by simp
qed

text \<open>Saving and loading in a new run gives back the text, position and size of every
  note, in the same order, when no note is at the origin (or new windows are placed at
  the origin).\<close>

lemma save_then_load_restores:
  assumes "list_all (restorable p) (note_list s)"
  shows "\<exists>s'. load_notes (startup p (store (save_notes s))) = Inr s' \<and>
           map note_data (note_list s') = map note_data (note_list s)"
proof -
  have "list_all (restorable (default_position (startup p (store (save_notes s))))) (note_list s)"
    using assms by (simp add: startup_def)
  then obtain s' where "load_loop (map note_record (note_list s)) (startup p (store (save_notes s))) = Inr s'"
    "map note_data (note_list s') =
       map note_data (note_list (startup p (store (save_notes s)))) @ map note_data (note_list s)"
    using load_loop_note_records by blast
  then show ?thesis
    by (simp add: load_notes_def startup_def)
qed

text \<open>
  Claim C1. Saving the notes and loading the file in a new run of the program does not
  always give back the same positions. The example has one note, with the text "todo",
  at the origin (0, 0), 200 by 200, on a desktop that places new windows at (860, 440).
  The record is saved with x = 0 and y = 0; on loading, \<^verbatim>\<open>if pos:\<close> is false for
  \<^verbatim>\<open>QPoint(0, 0)\<close>, the note is not moved, and it is at (860, 440): text and size are
  those of the saved note, x and y are not.
\<close>

theorem reload_misplaces_note_at_origin:
  "map note_data (note_list corner_note) = [(''todo'', 0, 0, 200, 200)] \<and>
   store (save_notes corner_note) =
     Some (Json (JArr [JObj [(''text'', JStr ''todo''), (''x'', JInt 0), (''y'', JInt 0),
                             (''width'', JInt 200), (''height'', JInt 200)]])) \<and>
   map_sum id (\<lambda>s'. map note_data (note_list s'))
     (load_notes (startup (860, 440) (store (save_notes corner_note)))) =
     Inr [(''todo'', 860, 440, 200, 200)]"
  by (simp add: corner_note_def note_data_def note_record_def load_notes_def startup_def
      load_record_def QPoint_def QSize_def create_note_safe_def StickyNote_init_def Let_def
      QPoint_bool_def QSize_bool_def on_text_changed_def new_widget_def resize_fits
      try_update_note_def show_note_def c_int_fits
      minimumWidth_def minimumHeight_def QWIDGETSIZE_MAX_def)

section \<open>Text changes\<close>

text \<open>
  Claim C2. A change of the text of a note saves at once: the text is changed in the
  list, and in the same step the file is rewritten from the whole list, one record for
  each note of the list, in the order of the list. The same holds for every call of
  \<^verbatim>\<open>on_text_changed\<close>. The attribute \<^verbatim>\<open>sticky_notes_app\<close> is set, as it is from
  the start of the program.
\<close>

theorem text_change_rewrites_store:
  assumes "sticky_notes_app s" and "i < length (note_list s)"
  shows "note_list (textChanged i t s) = (note_list s)[i := (note_list s ! i)\<lparr>plain_text := t\<rparr>] \<and>
         store (textChanged i t s) = Some (Json (JArr (map note_record (note_list (textChanged i t s))))) \<and>
         store (on_text_changed s) = Some (Json (JArr (map note_record (note_list s)))) \<and>
         length (map note_record (note_list (textChanged i t s))) = length (note_list s)"
  using assms by (simp add: textChanged_def on_text_changed_def)

theorem text_change_rewrites_store_witness:
  "sticky_notes_app two_notes \<and> (1::nat) < length (note_list two_notes) \<and>
   store (textChanged 1 ''call Ann'' two_notes) =
     Some (Json (JArr
       [JObj [(''text'', JStr ''buy milk''), (''x'', JInt 30), (''y'', JInt 40),
              (''width'', JInt 250), (''height'', JInt 180)],
        JObj [(''text'', JStr ''call Ann''), (''x'', JInt 500), (''y'', JInt 500),
              (''width'', JInt 200), (''height'', JInt 200)]]))"
proof -
  have a: "sticky_notes_app two_notes" and b: "(1::nat) < length (note_list two_notes)"
    by (simp_all add: two_notes_def)
  have "note_list (textChanged 1 ''call Ann'' two_notes) =
          (note_list two_notes)[1 := (note_list two_notes ! 1)\<lparr>plain_text := ''call Ann''\<rparr>]"
    and "store (textChanged 1 ''call Ann'' two_notes) =
          Some (Json (JArr (map note_record (note_list (textChanged 1 ''call Ann'' two_notes)))))"
    using text_change_rewrites_store [OF a b, of "''call Ann''"] by simp_all
  then show ?thesis
    using a b by (simp add: two_notes_def note_record_def)
qed

section \<open>Deleting a note\<close>



section \<open>Creating notes\<close>

text \<open>
  Claim C9. Creating a blank note by the hotkey or from the tray menu does not save:
  the file is as it was, and the new note, empty and at the default place and size,
  is at the end of the list only.
\<close>

theorem blank_note_creation_keeps_store:
  "(\<exists>s'. hotkey_note s = Inr s' \<and> store s' = store s \<and>
         note_list s' = note_list s @ [fresh_note (default_position s) []]) \<and>
   (\<exists>s'. tray_new_note s = Inr s' \<and> store s' = store s \<and>
         note_list s' = note_list s @ [fresh_note (default_position s) []])"
  by (simp add: hotkey_note_def tray_new_note_def create_note_safe_def StickyNote_init_def
      Let_def try_update_note_def resize_200 show_note_def fresh_note_def new_widget_def)

text \<open>What the "+" button does, in full.\<close>

lemma create_new_note_result:
  "create_new_note s =
     (if note_list s = [] then Inr (s\<lparr>note_list := [fresh_note (default_position s) []]\<rparr>)
      else if fits_c_int (pos_x (last (note_list s)) + 20) \<and>
              fits_c_int (pos_y (last (note_list s)) + 20)
      then Inr (s\<lparr>note_list := note_list s @
                  [(fresh_note (default_position s) [])
                     \<lparr>pos_x := pos_x (last (note_list s)) + 20,
                      pos_y := pos_y (last (note_list s)) + 20\<rparr>]\<rparr>)
      else Inl OverflowError)"
proof -
  have init: "StickyNote_init (JStr []) s =
                Inr (s\<lparr>note_list := note_list s @ [fresh_note (default_position s) []]\<rparr>)"
    by (simp add: StickyNote_init_def Let_def try_update_note_def resize_200 show_note_def
        fresh_note_def new_widget_def update_note_def)
  show ?thesis
  proof (cases "note_list s = []")
    case True
    then show ?thesis
      by (simp add: create_new_note_def init)
  next
    case False
    then have cur: "(note_list s @ [fresh_note (default_position s) []]) ! (length (note_list s) - Suc 0) =
                  last (note_list s)"
      by (simp add: nth_append last_conv_nth)
    show ?thesis
    proof (cases "fits_c_int (pos_x (last (note_list s)) + 20) \<and>
                  fits_c_int (pos_y (last (note_list s)) + 20)")
      case True
      then show ?thesis
        using False cur
        by (simp add: create_new_note_def init Let_def try_update_note_def move_fits fresh_note_def)
    next
      case out: False
      then have "move (pos_x (last (note_list s)) + 20) (pos_y (last (note_list s)) + 20) n =
                   Inl OverflowError" for n
        by (cases "move (pos_x (last (note_list s)) + 20) (pos_y (last (note_list s)) + 20) n")
          (auto dest: move_Inl move_Inr)
      then show ?thesis
        using False cur out
        by (simp add: create_new_note_def init Let_def try_update_note_def)
    qed
  qed
qed

text \<open>
  Claim C7, as the program has it. The "+" button of any note creates a blank note 20
  pixels to the right of and below the note that was last in the list, the note created
  most recently among those still open; the file is not written. Which note's button was
  clicked plays no part. The new position is handed to the toolkit as two C ints: when
  one of them does not fit, which needs a note within 20 pixels of the largest C int,
  the click raises OverflowError instead.
\<close>

theorem new_btn_offsets_from_last_note:
  assumes "note_list s \<noteq> []"
  shows "(fits_c_int (pos_x (last (note_list s)) + 20) \<and>
          fits_c_int (pos_y (last (note_list s)) + 20) \<longrightarrow>
            (\<exists>s'. new_btn_clicked i s = Inr s' \<and>
                  note_list s' = note_list s @
                    [(fresh_note (default_position s) [])
                       \<lparr>pos_x := pos_x (last (note_list s)) + 20,
                        pos_y := pos_y (last (note_list s)) + 20\<rparr>] \<and>
                  store s' = store s)) \<and>
         (\<not> (fits_c_int (pos_x (last (note_list s)) + 20) \<and>
             fits_c_int (pos_y (last (note_list s)) + 20)) \<longrightarrow>
            new_btn_clicked i s = Inl OverflowError)"
  using assms by (simp add: new_btn_clicked_def create_new_note_result)

theorem new_btn_offsets_from_last_note_witness:
  "note_list two_notes \<noteq> [] \<and>
   fits_c_int (pos_x (last (note_list two_notes)) + 20) \<and>
   fits_c_int (pos_y (last (note_list two_notes)) + 20) \<and>
   (\<exists>s'. new_btn_clicked 1 two_notes = Inr s' \<and>
         note_list s' = note_list two_notes @ [(fresh_note (860, 440) [])\<lparr>pos_x := 520, pos_y := 520\<rparr>] \<and>
         store s' = None)"
proof -
  have a: "note_list two_notes \<noteq> []"
    by (simp add: two_notes_def)
  have b: "fits_c_int (pos_x (last (note_list two_notes)) + 20) \<and>
           fits_c_int (pos_y (last (note_list two_notes)) + 20)"
    by (simp add: two_notes_def fits_c_int_def INT_MIN_def INT_MAX_def)
  have "pos_x (last (note_list two_notes)) + 20 = 520" "pos_y (last (note_list two_notes)) + 20 = 520"
    "store two_notes = None" "default_position two_notes = (860, 440)"
    by (simp_all add: two_notes_def)
  with new_btn_offsets_from_last_note [OF a, of 1] a b show ?thesis by simp
qed

text \<open>The claim as written fails: with the two example notes open, the "+" button of
  the first note, which is at (30, 40), puts the new note at (520, 520), 20 pixels
  from the second note, and not at (50, 60).\<close>

theorem new_btn_ignores_clicked_note:
  "new_btn_clicked 0 two_notes =
     Inr (two_notes\<lparr>note_list := note_list two_notes @ [(fresh_note (860, 440) [])\<lparr>pos_x := 520, pos_y := 520\<rparr>]\<rparr>) \<and>
   pos_x (note_list two_notes ! 0) + 20 \<noteq> 520 \<and> pos_y (note_list two_notes ! 0) + 20 \<noteq> 520"
  by (simp add: new_btn_clicked_def create_new_note_result two_notes_def fits_c_int_def
      INT_MIN_def INT_MAX_def)


section \<open>What holds throughout a run\<close>

subsection \<open>Lists of notes\<close>

lemma list_all_update_note:
  assumes "list_all P xs" and "i < length xs \<Longrightarrow> P n"
  shows "list_all P (xs[i := n])"
proof (cases "i < length xs")
  case True
  then show ?thesis
    using assms by (simp add: list_all_length nth_list_update)
next
  case False
  then show ?thesis using assms(1) by (simp add: list_update_beyond)
qed

lemma order_kept_same: "order_kept xs xs"
  by (simp add: order_kept_def)

lemma order_kept_update: "order_kept xs (xs[i := n])"
proof (cases "i < length xs")
  case True
  then have "list_ex (\<lambda>j. xs[i := n] = xs[j := xs[i := n] ! j]) [0..<length xs]"
    unfolding list_ex_iff by (intro bexI [of _ i]) simp_all
  then show ?thesis
    by (simp add: order_kept_def)
next
  case False
  then show ?thesis
    by (simp add: order_kept_def list_update_beyond)
qed

lemma order_kept_append: "order_kept xs (xs @ [n])"
  by (simp add: order_kept_def)

lemma order_kept_remove:
  assumes "i < length xs"
  shows "order_kept xs (take i xs @ drop (Suc i) xs)"
proof -
  have "list_ex (\<lambda>j. take i xs @ drop (Suc i) xs = take j xs @ drop (Suc j) xs) [0..<length xs]"
    unfolding list_ex_iff using assms by (intro bexI [of _ i]) simp_all
  then show ?thesis
    by (simp add: order_kept_def)
qed

subsection \<open>The written file\<close>

lemma is_note_record_note_record: "is_note_record (note_record n)"
  by (simp add: note_record_def record_keys_def)

lemma is_note_array_written: "is_note_array (written_from ns)"
  by (simp add: written_from_def list_all_iff is_note_record_note_record)

lemma save_notes_written: "store (save_notes s) = written_from (note_list s)"
  by (simp add: written_from_def)

subsection \<open>Creating and loading keep the invariant\<close>

lemma note_inv_resize:
  assumes "resize w h n = Inr n'" and "note_inv n"
  shows "note_inv n' \<and> plain_text n' = plain_text n"
  using resize_Inr [OF assms(1)] assms(2)
  by (simp add: note_inv_def size_ok_def gesture_ok_def
      minimumWidth_def minimumHeight_def QWIDGETSIZE_MAX_def)

lemma note_inv_move:
  assumes "move a b n = Inr n'" and "note_inv n"
  shows "note_inv n' \<and> plain_text n' = plain_text n"
  using move_Inr [OF assms(1)] assms(2)
  by (simp add: note_inv_def size_ok_def gesture_ok_def)

lemma note_inv_fresh: "note_inv (fresh_note p t)"
  by (simp add: note_inv_def size_ok_def gesture_ok_def fresh_note_def
      minimumWidth_def minimumHeight_def QWIDGETSIZE_MAX_def)

lemma note_inv_fresh_moved: "note_inv ((fresh_note p t)\<lparr>pos_x := a, pos_y := b\<rparr>)"
  by (simp add: note_inv_def size_ok_def gesture_ok_def fresh_note_def
      minimumWidth_def minimumHeight_def QWIDGETSIZE_MAX_def)

lemma StickyNote_init_Inr:
  assumes "StickyNote_init initial_text s = Inr s'"
  shows "\<exists>t. note_list s' = note_list s @ [fresh_note (default_position s) t] \<and>
           sticky_notes_app s' = sticky_notes_app s \<and>
           default_position s' = default_position s \<and>
           (store s' = store s \<or>
            store s' = written_from (note_list s @ [new_widget\<lparr>plain_text := t\<rparr>]))"
proof (cases "truthy initial_text")
  case False
  then have "s' = s\<lparr>note_list := note_list s @ [fresh_note (default_position s) []]\<rparr>"
    using assms
    by (simp add: StickyNote_init_def Let_def try_update_note_def resize_200 show_note_def
        fresh_note_def new_widget_def update_note_def)
  then show ?thesis by auto
next
  case True
  then obtain t where t: "initial_text = JStr t"
    using assms by (cases initial_text) (simp_all add: StickyNote_init_def Let_def)
  obtain s1 where s1: "StickyNote_init (JStr t) s = Inr s1"
    "note_list s1 = note_list s @ [fresh_note (default_position s) (qt_plain t)]"
    "sticky_notes_app s1 = sticky_notes_app s"
    "default_position s1 = default_position s"
    "store s1 = (if t \<noteq> [] \<and> sticky_notes_app s
                 then written_from (note_list s @ [new_widget\<lparr>plain_text := qt_plain t\<rparr>])
                 else store s)"
    using StickyNote_init_str [of t s] by blast
  have "s' = s1"
    using assms s1(1) t by simp
  then show ?thesis
    using s1 by (cases "t \<noteq> [] \<and> sticky_notes_app s") auto
qed

lemma create_note_safe_Inr:
  assumes "create_note_safe initial_text pos sz s = Inr s'"
  shows "\<exists>n. note_list s' = note_list s @ [n] \<and> note_inv n \<and>
           sticky_notes_app s' = sticky_notes_app s \<and>
           default_position s' = default_position s \<and>
           (store s' = store s \<or>
            store s' = written_from (note_list s @ [new_widget\<lparr>plain_text := plain_text n\<rparr>]))"
proof -
  let ?self = "length (note_list s)"
  obtain s1 s2 where s1: "StickyNote_init initial_text s = Inr s1"
    and s2: "(case pos of
                Some p \<Rightarrow>
                  if QPoint_bool p then try_update_note ?self (move (fst p) (snd p)) s1 else Inr s1
              | None \<Rightarrow> Inr s1) = Inr s2"
    and s3: "(case sz of
                Some z \<Rightarrow>
                  if QSize_bool z then try_update_note ?self (resize (fst z) (snd z)) s2 else Inr s2
              | None \<Rightarrow> Inr s2) = Inr s'"
    using assms unfolding create_note_safe_def Let_def by (auto elim!: and_then_InrE)
  obtain t where t: "note_list s1 = note_list s @ [fresh_note (default_position s) t]"
    "sticky_notes_app s1 = sticky_notes_app s" "default_position s1 = default_position s"
    "store s1 = store s \<or> store s1 = written_from (note_list s @ [new_widget\<lparr>plain_text := t\<rparr>])"
    using StickyNote_init_Inr [OF s1] by blast
  have n0: "note_inv (fresh_note (default_position s) t)"
    "plain_text (fresh_note (default_position s) t) = t"
    by (simp_all add: note_inv_fresh) (simp add: fresh_note_def)
  obtain n1 where n1: "s2 = s1\<lparr>note_list := note_list s @ [n1]\<rparr>" "note_inv n1" "plain_text n1 = t"
  proof (cases "\<exists>p. pos = Some p \<and> QPoint_bool p")
    case True
    then obtain p where "pos = Some p" "QPoint_bool p" by blast
    then obtain n where "move (fst p) (snd p) (fresh_note (default_position s) t) = Inr n"
      "s2 = s1\<lparr>note_list := note_list s @ [n]\<rparr>"
      using s2 t(1) by (auto simp: try_update_note_Inr)
    then show ?thesis
      using note_inv_move [of "fst p" "snd p" _ n] n0 that by auto
  next
    case False
    then have "s2 = s1"
      using s2 by (auto split: option.splits if_splits)
    then show ?thesis
      using that [of "fresh_note (default_position s) t"] n0 t(1) by simp
  qed
  obtain n2 where n2: "s' = s1\<lparr>note_list := note_list s @ [n2]\<rparr>" "note_inv n2" "plain_text n2 = t"
  proof (cases "\<exists>z. sz = Some z \<and> QSize_bool z")
    case True
    then obtain z where "sz = Some z" "QSize_bool z" by blast
    then obtain n where "resize (fst z) (snd z) n1 = Inr n"
      "s' = s1\<lparr>note_list := note_list s @ [n]\<rparr>"
      using s3 n1(1) by (auto simp: try_update_note_Inr)
    then show ?thesis
      using note_inv_resize [of "fst z" "snd z" n1 n] n1 that by auto
  next
    case False
    then have "s' = s2"
      using s3 by (auto split: option.splits if_splits)
    then show ?thesis
      using that [of n1] n1 by simp
  qed
  show ?thesis
    using n2 t by auto
qed

lemma load_record_Inr:
  assumes "load_record r s = Inr s'"
  shows "\<exists>n. note_list s' = note_list s @ [n] \<and> note_inv n \<and>
           sticky_notes_app s' = sticky_notes_app s \<and>
           default_position s' = default_position s \<and>
           (store s' = store s \<or>
            store s' = written_from (note_list s @ [new_widget\<lparr>plain_text := plain_text n\<rparr>]))"
proof -
  obtain t pos sz where "create_note_safe t (Some pos) (Some sz) s = Inr s'"
    using assms unfolding load_record_def by (auto elim!: and_then_InrE)
  then show ?thesis
    by (rule create_note_safe_Inr)
qed

text \<open>What loading leaves in the file: the file it read, or what the last note with a
  text wrote from its constructor, which is the records of the notes before it and its
  own record as a window that has its text and nothing else yet.\<close>

lemma load_loop_Inr:
  assumes "load_loop rs s = Inr s'" and "app_ok s"
  shows "app_ok s' \<and> take (length (note_list s)) (note_list s') = note_list s \<and>
         length (note_list s) \<le> length (note_list s') \<and>
         (store s' = store s \<or>
          (\<exists>k. length (note_list s) \<le> k \<and> k < length (note_list s') \<and>
               store s' = written_from (take k (note_list s') @
                            [new_widget\<lparr>plain_text := plain_text (note_list s' ! k)\<rparr>])))"
  using assms
proof (induction rs arbitrary: s)
  case Nil
  then show ?case by simp
next
  case (Cons r rs)
  then obtain s1 where s1: "load_record r s = Inr s1" and rest: "load_loop rs s1 = Inr s'"
    by (auto elim!: and_then_InrE)
  obtain n where n: "note_list s1 = note_list s @ [n]" "note_inv n"
    "sticky_notes_app s1 = sticky_notes_app s"
    "store s1 = store s \<or>
     store s1 = written_from (note_list s @ [new_widget\<lparr>plain_text := plain_text n\<rparr>])"
    using load_record_Inr [OF s1] by blast
  have "app_ok s1"
    using n Cons.prems(2) by (simp add: app_ok_def)
  then have ih: "app_ok s'" "take (length (note_list s1)) (note_list s') = note_list s1"
    "length (note_list s1) \<le> length (note_list s')"
    "store s' = store s1 \<or>
     (\<exists>k. length (note_list s1) \<le> k \<and> k < length (note_list s') \<and>
          store s' = written_from (take k (note_list s') @
                       [new_widget\<lparr>plain_text := plain_text (note_list s' ! k)\<rparr>]))"
    using Cons.IH [OF rest] by simp_all
  let ?k = "length (note_list s)"
  have len: "?k < length (note_list s')"
    using ih(3) n(1) by simp
  have pre: "take (Suc ?k) (note_list s') = note_list s @ [n]"
    using ih(2) n(1) by simp
  have "take ?k (note_list s') = take ?k (take (Suc ?k) (note_list s'))"
    by simp
  then have tk: "take ?k (note_list s') = note_list s"
    unfolding pre by simp
  have "note_list s' ! ?k = take (Suc ?k) (note_list s') ! ?k"
    by simp
  then have nk: "note_list s' ! ?k = n"
    unfolding pre by simp
  show ?case
  proof (intro conjI)
    show "app_ok s'" by (rule ih(1))
    show "take ?k (note_list s') = note_list s" by (rule tk)
    show "?k \<le> length (note_list s')" using len by simp
    show "store s' = store s \<or>
          (\<exists>k. ?k \<le> k \<and> k < length (note_list s') \<and>
               store s' = written_from (take k (note_list s') @
                            [new_widget\<lparr>plain_text := plain_text (note_list s' ! k)\<rparr>]))"
    proof (cases "store s' = store s1")
      case True
      show ?thesis
      proof (cases "store s1 = store s")
        case True
        then show ?thesis using \<open>store s' = store s1\<close> by simp
      next
        case False
        then have "store s' = written_from (take ?k (note_list s') @
                     [new_widget\<lparr>plain_text := plain_text (note_list s' ! ?k)\<rparr>])"
          using n(4) True tk nk by simp
        then show ?thesis using len by blast
      qed
    next
      case False
      then obtain k where "length (note_list s1) \<le> k" "k < length (note_list s')"
        "store s' = written_from (take k (note_list s') @
                       [new_widget\<lparr>plain_text := plain_text (note_list s' ! k)\<rparr>])"
        using ih(4) by blast
      moreover have "?k \<le> k"
        using calculation(1) n(1) by simp
      ultimately show ?thesis by blast
    qed
  qed
qed

lemma load_notes_Inr:
  assumes "load_notes (startup p f) = Inr s"
  shows "app_ok s \<and>
         (store s = f \<or>
          (\<exists>k<length (note_list s).
             store s = written_from (take k (note_list s) @
                         [new_widget\<lparr>plain_text := plain_text (note_list s ! k)\<rparr>])))"
proof -
  have ok: "app_ok (startup p f)"
    by (simp add: app_ok_def startup_def)
  show ?thesis
  proof (cases f)
    case None
    then have "s = startup p f"
      using assms by (simp add: load_notes_def startup_def)
    then show ?thesis
      using ok by (simp add: startup_def)
  next
    case (Some c)
    then obtain rs where "load_loop rs (startup p f) = Inr s"
      using assms by (cases c) (auto simp: load_notes_def startup_def elim!: and_then_InrE)
    then show ?thesis
      using load_loop_Inr [of rs "startup p f" s] ok by (auto simp: startup_def)
  qed
qed


subsection \<open>Every event keeps the invariant\<close>

lemma note_inv_text: "note_inv n \<Longrightarrow> note_inv (n\<lparr>plain_text := t\<rparr>)"
  by (simp add: note_inv_def size_ok_def gesture_ok_def)

lemma note_inv_release:
  "note_inv n \<Longrightarrow> note_inv (n\<lparr>dragging := False, resizing := False, start_pos := None, start_size := None\<rparr>)"
  by (simp add: note_inv_def size_ok_def gesture_ok_def)

lemma note_inv_press_resize:
  "note_inv n \<Longrightarrow> note_inv (n\<lparr>resizing := True, start_pos := Some p, start_size := Some (width n, height n)\<rparr>)"
  by (simp add: note_inv_def size_ok_def gesture_ok_def)

lemma note_inv_press_drag:
  "note_inv n \<Longrightarrow> note_inv (n\<lparr>dragging := True, start_pos := Some p\<rparr>)"
  by (simp add: note_inv_def size_ok_def gesture_ok_def)

lemma app_ok_update_note:
  assumes "app_ok s" and "\<And>n. note_inv n \<Longrightarrow> note_inv (f n)"
  shows "app_ok (update_note i f s)"
proof -
  have "note_inv (f (note_list s ! i))" if "i < length (note_list s)"
    using assms that by (simp add: app_ok_def list_all_length)
  then show ?thesis
    using assms(1) by (simp add: app_ok_def list_all_update_note)
qed

lemma app_ok_replace:
  assumes "app_ok s" and "i < length (note_list s) \<Longrightarrow> note_inv n"
  shows "app_ok (s\<lparr>note_list := (note_list s)[i := n]\<rparr>)"
  using assms by (simp add: app_ok_def list_all_update_note)

lemma app_ok_nth:
  assumes "app_ok s" and "i < length (note_list s)"
  shows "note_inv (note_list s ! i)"
  using assms by (simp add: app_ok_def list_all_length)

lemma textChanged_ok:
  assumes "app_ok s"
  shows "app_ok (textChanged i t s) \<and>
         store (textChanged i t s) = written_from (note_list (textChanged i t s)) \<and>
         order_kept (note_list s) (note_list (textChanged i t s))"
proof -
  have "app_ok (update_note i (\<lambda>n. n\<lparr>plain_text := t\<rparr>) s)"
    using assms note_inv_text by (rule app_ok_update_note)
  then show ?thesis
    by (simp add: textChanged_def on_text_changed_def app_ok_def written_from_def order_kept_update)
qed

lemma mousePressEvent_ok:
  assumes "app_ok s"
  shows "app_ok (mousePressEvent i ev s) \<and> store (mousePressEvent i ev s) = store s \<and>
         order_kept (note_list s) (note_list (mousePressEvent i ev s))"
proof -
  have "app_ok (copy_with_feedback i s)" "store (copy_with_feedback i s) = store s"
    "note_list (copy_with_feedback i s) = note_list s"
    using assms by (simp_all add: copy_with_feedback_def app_ok_def)
  moreover have "app_ok (update_note i
                            (\<lambda>n. n\<lparr>resizing := True, start_pos := Some p,
                                   start_size := Some (width n, height n)\<rparr>) s)" for p
    using assms note_inv_press_resize by (rule app_ok_update_note)
  moreover have "app_ok (update_note i (\<lambda>n. n\<lparr>dragging := True, start_pos := Some p\<rparr>) s)" for p
    using assms note_inv_press_drag by (rule app_ok_update_note)
  ultimately show ?thesis
    using assms by (simp add: mousePressEvent_def Let_def order_kept_update order_kept_same)
qed

lemma mouseReleaseEvent_ok:
  assumes "app_ok s"
  shows "app_ok (mouseReleaseEvent i ev s) \<and> store (mouseReleaseEvent i ev s) = store s \<and>
         order_kept (note_list s) (note_list (mouseReleaseEvent i ev s))"
proof -
  have "app_ok (mouseReleaseEvent i ev s)"
    unfolding mouseReleaseEvent_def using assms note_inv_release by (rule app_ok_update_note)
  then show ?thesis
    by (simp add: mouseReleaseEvent_def order_kept_update)
qed

text \<open>A mouse move is one of three things: a resize of the note, a move of the note, or
  nothing. The first two hand Python ints to the toolkit.\<close>

lemma mouseMoveEvent_cases:
  assumes "app_ok s" and "i < length (note_list s)"
  shows "(\<exists>w h. mouseMoveEvent i ev s = try_update_note i (resize w h) s) \<or>
         (\<exists>a b. mouseMoveEvent i ev s = try_update_note i (move a b) s) \<or>
         mouseMoveEvent i ev s = Inr s"
proof -
  let ?self = "note_list s ! i"
  have inv: "note_inv ?self"
    using assms by (rule app_ok_nth)
  show ?thesis
  proof (cases "resizing ?self \<and> start_pos ?self \<noteq> None")
    case True
    then obtain sz where "start_size ?self = Some sz"
      using inv by (auto simp: note_inv_def gesture_ok_def split: option.splits)
    then have "\<exists>w h. mouseMoveEvent i ev s = try_update_note i (resize w h) s"
      using True by (simp add: mouseMoveEvent_def Let_def) blast
    then show ?thesis by blast
  next
    case False
    then have eq: "mouseMoveEvent i ev s =
        (if dragging ?self \<and> start_pos ?self \<noteq> None
         then try_update_note i
                (\<lambda>n. move (pos_x n + py_int (fst (position ev) - fst (the (start_pos ?self))))
                          (pos_y n + py_int (snd (position ev) - snd (the (start_pos ?self)))) n) s
         else Inr s)"
      by (simp only: mouseMoveEvent_def Let_def if_False)
    show ?thesis
    proof (cases "dragging ?self \<and> start_pos ?self \<noteq> None")
      case drag: True
      have "mouseMoveEvent i ev s =
          try_update_note i
            (\<lambda>n. move (pos_x n + py_int (fst (position ev) - fst (the (start_pos ?self))))
                      (pos_y n + py_int (snd (position ev) - snd (the (start_pos ?self)))) n) s"
        unfolding eq using drag by (rule if_P)
      also have "\<dots> =
          try_update_note i
            (move (pos_x ?self + py_int (fst (position ev) - fst (the (start_pos ?self))))
                  (pos_y ?self + py_int (snd (position ev) - snd (the (start_pos ?self))))) s"
        by (simp add: try_update_note_def)
      finally show ?thesis by blast
    next
      case idle: False
      have "mouseMoveEvent i ev s = Inr s"
        unfolding eq using idle by (rule if_not_P)
      then show ?thesis by blast
    qed
  qed
qed

lemma mouseMoveEvent_Inr:
  assumes "mouseMoveEvent i ev s = Inr s'" and "app_ok s" and "i < length (note_list s)"
  shows "app_ok s' \<and> store s' = store s \<and> order_kept (note_list s) (note_list s')"
proof -
  consider (rs) w h where "mouseMoveEvent i ev s = try_update_note i (resize w h) s"
    | (mv) a b where "mouseMoveEvent i ev s = try_update_note i (move a b) s"
    | (nothing) "mouseMoveEvent i ev s = Inr s"
    using mouseMoveEvent_cases [OF assms(2,3), of ev] by blast
  then show ?thesis
  proof cases
    case rs
    then have "try_update_note i (resize w h) s = Inr s'"
      using assms(1) by simp
    then obtain n where n: "resize w h (note_list s ! i) = Inr n"
      "s' = s\<lparr>note_list := (note_list s)[i := n]\<rparr>"
      unfolding try_update_note_Inr by blast
    have "note_inv n"
      using note_inv_resize [OF n(1)] app_ok_nth [OF assms(2,3)] by simp
    then show ?thesis
      using n(2) app_ok_replace [OF assms(2), of i n] by (simp add: order_kept_update)
  next
    case mv
    then have "try_update_note i (move a b) s = Inr s'"
      using assms(1) by simp
    then obtain n where n: "move a b (note_list s ! i) = Inr n"
      "s' = s\<lparr>note_list := (note_list s)[i := n]\<rparr>"
      unfolding try_update_note_Inr by blast
    have "note_inv n"
      using note_inv_move [OF n(1)] app_ok_nth [OF assms(2,3)] by simp
    then show ?thesis
      using n(2) app_ok_replace [OF assms(2), of i n] by (simp add: order_kept_update)
  next
    case nothing
    then show ?thesis
      using assms(1,2) by (simp add: order_kept_same)
  qed
qed

lemma mouseMoveEvent_Inl:
  assumes "mouseMoveEvent i ev s = Inl err" and "app_ok s" and "i < length (note_list s)"
  shows "err = OverflowError"
proof -
  consider (rs) w h where "mouseMoveEvent i ev s = try_update_note i (resize w h) s"
    | (mv) a b where "mouseMoveEvent i ev s = try_update_note i (move a b) s"
    | (nothing) "mouseMoveEvent i ev s = Inr s"
    using mouseMoveEvent_cases [OF assms(2,3), of ev] by blast
  then show ?thesis
  proof cases
    case rs
    then have "try_update_note i (resize w h) s = Inl err"
      using assms(1) by simp
    then have "resize w h (note_list s ! i) = Inl err"
      unfolding try_update_note_Inl .
    then show ?thesis
      using resize_Inl by blast
  next
    case mv
    then have "try_update_note i (move a b) s = Inl err"
      using assms(1) by simp
    then have "move a b (note_list s ! i) = Inl err"
      unfolding try_update_note_Inl .
    then show ?thesis
      using move_Inl by blast
  next
    case nothing
    then show ?thesis
      using assms(1) by simp
  qed
qed

lemma blank_note_created:
  assumes "\<not> truthy t"
  shows "create_note_safe t None None s =
           Inr (s\<lparr>note_list := note_list s @ [fresh_note (default_position s) []]\<rparr>)"
  using assms
  by (simp add: create_note_safe_def StickyNote_init_def Let_def try_update_note_def resize_200
      show_note_def fresh_note_def new_widget_def update_note_def)

lemma app_ok_append:
  assumes "app_ok s" and "note_inv n"
  shows "app_ok (s\<lparr>note_list := note_list s @ [n]\<rparr>)"
  using assms by (simp add: app_ok_def)

lemma delete_note_ok:
  assumes "app_ok s" and "i < length (note_list s)"
  shows "\<exists>s'. delete_note i s = Inr s' \<and> app_ok s' \<and>
           store s' = written_from (note_list s') \<and>
           order_kept (note_list s) (note_list s')"
proof -
  let ?ns = "take i (note_list s) @ drop (Suc i) (note_list s)"
  have "set ?ns \<subseteq> set (note_list s)"
    using set_take_subset [of i "note_list s"] set_drop_subset [of "Suc i" "note_list s"] by auto
  then have "list_all note_inv ?ns"
    using assms(1) by (auto simp: app_ok_def list_all_iff)
  moreover have "order_kept (note_list s) ?ns"
    using assms(2) by (rule order_kept_remove)
  ultimately show ?thesis
    using assms
    by (simp add: delete_note_def Let_def app_ok_def written_from_def del: map_append)
qed

text \<open>An event that is handled keeps the invariant and the order of the list, and
  leaves the file as it was or writes it from the list as it is after the event. An
  event that is not handled has raised OverflowError.\<close>

lemma step_Inr:
  assumes "step e s = Inr s'" and "app_ok s"
  shows "app_ok s' \<and> (store s' = store s \<or> store s' = written_from (note_list s')) \<and>
         order_kept (note_list s) (note_list s')"
proof (cases e)
  case Hotkey
  then show ?thesis
    using assms app_ok_append [OF assms(2) note_inv_fresh, of "default_position s" "[]"]
    by (auto simp: hotkey_note_def blank_note_created order_kept_append)
next
  case TrayNewNote
  then show ?thesis
    using assms app_ok_append [OF assms(2) note_inv_fresh, of "default_position s" "[]"]
    by (auto simp: tray_new_note_def blank_note_created order_kept_append)
next
  case (TextChanged i t)
  then show ?thesis
    using assms textChanged_ok [OF assms(2), of i t] by (auto simp: order_kept_same split: if_splits)
next
  case (NewBtnClicked i)
  show ?thesis
  proof (cases "i < length (note_list s)")
    case True
    then have ne: "note_list s \<noteq> []" by auto
    let ?n = "(fresh_note (default_position s) [])
                 \<lparr>pos_x := pos_x (last (note_list s)) + 20,
                  pos_y := pos_y (last (note_list s)) + 20\<rparr>"
    have "create_new_note s = Inr s'"
      using assms(1) NewBtnClicked True by (simp add: new_btn_clicked_def)
    then have "s' = s\<lparr>note_list := note_list s @ [?n]\<rparr>"
      using ne by (simp add: create_new_note_result split: if_splits)
    then show ?thesis
      using app_ok_append [OF assms(2) note_inv_fresh_moved] by (simp add: order_kept_append)
  next
    case False
    then show ?thesis
      using assms NewBtnClicked by (auto simp: order_kept_same)
  qed
next
  case (CloseBtnClicked i)
  then show ?thesis
    using assms delete_note_ok [OF assms(2), of i] by (auto simp: order_kept_same split: if_splits)
next
  case (MousePress i ev)
  then show ?thesis
    using assms mousePressEvent_ok [OF assms(2), of i ev] by (auto simp: order_kept_same split: if_splits)
next
  case (MouseMove i ev)
  then show ?thesis
    using assms mouseMoveEvent_Inr [of i ev s s'] by (auto simp: order_kept_same split: if_splits)
next
  case (MouseRelease i ev)
  then show ?thesis
    using assms mouseReleaseEvent_ok [OF assms(2), of i ev] by (auto simp: order_kept_same split: if_splits)
qed

lemma step_Inl:
  assumes "step e s = Inl err" and "app_ok s"
  shows "err = OverflowError"
proof (cases e)
  case Hotkey
  then show ?thesis
    using assms by (simp add: hotkey_note_def blank_note_created)
next
  case TrayNewNote
  then show ?thesis
    using assms by (simp add: tray_new_note_def blank_note_created)
next
  case (TextChanged i t)
  then show ?thesis
    using assms by (simp split: if_splits)
next
  case (NewBtnClicked i)
  then show ?thesis
    using assms by (simp add: new_btn_clicked_def create_new_note_result split: if_splits)
next
  case (CloseBtnClicked i)
  then show ?thesis
    using assms delete_note_ok [OF assms(2), of i] by (auto split: if_splits)
next
  case (MousePress i ev)
  then show ?thesis
    using assms by (simp split: if_splits)
next
  case (MouseMove i ev)
  then show ?thesis
    using assms mouseMoveEvent_Inl [of i ev s err] by (auto split: if_splits)
next
  case (MouseRelease i ev)
  then show ?thesis
    using assms by (simp split: if_splits)
qed


subsection \<open>Runs\<close>

lemma run_Inr:
  assumes "run es s = Inr s'" and "app_ok s"
  shows "app_ok s' \<and> (store s' = store s \<or> is_note_array (store s'))"
  using assms
proof (induction es arbitrary: s)
  case Nil
  then show ?case by simp
next
  case (Cons e es)
  then obtain s1 where s1: "step e s = Inr s1" and rest: "run es s1 = Inr s'"
    by (auto elim!: and_then_InrE)
  have ok1: "app_ok s1" and st1: "store s1 = store s \<or> store s1 = written_from (note_list s1)"
    using step_Inr [OF s1 Cons.prems(2)] by simp_all
  have "app_ok s'" and "store s' = store s1 \<or> is_note_array (store s')"
    using Cons.IH [OF rest ok1] by simp_all
  then show ?case
    using st1 is_note_array_written by (auto simp del: is_note_array.simps)
qed

lemma run_Inl:
  assumes "run es s = Inl err" and "app_ok s"
  shows "err = OverflowError"
  using assms
proof (induction es arbitrary: s)
  case Nil
  then show ?case by simp
next
  case (Cons e es)
  show ?case
  proof (cases "step e s")
    case (Inl e1)
    then show ?thesis
      using Cons.prems step_Inl [OF Inl Cons.prems(2)] by simp
  next
    case (Inr s1)
    then show ?thesis
      using Cons.prems Cons.IH [of s1] step_Inr [OF Inr Cons.prems(2)] by simp
  qed
qed

text \<open>The state that a run reaches satisfies the invariant, and its file is the one the
  run started with or an array of note records.\<close>

lemma session_ok:
  assumes "session p f evs = Inr s"
  shows "app_ok s \<and> (store s = f \<or> is_note_array (store s))"
proof -
  obtain s0 where s0: "load_notes (startup p f) = Inr s0" and r: "run evs s0 = Inr s"
    using assms unfolding session_def by (rule and_then_InrE)
  have ok0: "app_ok s0" and st0: "store s0 = f \<or> is_note_array (store s0)"
    using load_notes_Inr [OF s0] is_note_array_written by (auto simp del: is_note_array.simps)
  show ?thesis
    using run_Inr [OF r ok0] st0 by auto
qed

text \<open>Once the file is loaded, a run can only fail with OverflowError.\<close>

lemma session_Inl:
  assumes "load_notes (startup p f) = Inr s0" and "session p f evs = Inl err"
  shows "err = OverflowError"
proof -
  have "run evs s0 = Inl err"
    using assms by (simp add: session_def)
  then show ?thesis
    using load_notes_Inr [OF assms(1)] run_Inl by blast
qed

lemma py_int_of_int [simp]: "py_int (real_of_int k) = k"
  by (simp add: py_int_def)

text \<open>A resize gesture with the pointer above and to the left of where it was pressed
  shrinks the note, never below the minimum size, and does not fail.\<close>

lemma mouseMoveEvent_shrink:
  assumes "app_ok s" and "i < length (note_list s)"
    and "resizing (note_list s ! i)" and "start_pos (note_list s ! i) = Some sp"
    and "fst (position ev) \<le> fst sp" and "snd (position ev) \<le> snd sp"
  shows "\<exists>s'. mouseMoveEvent i ev s = Inr s' \<and>
           100 \<le> width (note_list s' ! i) \<and> 100 \<le> height (note_list s' ! i)"
proof -
  let ?self = "note_list s ! i"
  have "gesture_ok ?self"
    using app_ok_nth [OF assms(1,2)] by (simp add: note_inv_def)
  then obtain z where z: "start_size ?self = Some z"
    "100 \<le> fst z" "fst z \<le> 16777215" "100 \<le> snd z" "snd z \<le> 16777215"
    using assms(3)
    by (auto simp: gesture_ok_def minimumWidth_def minimumHeight_def QWIDGETSIZE_MAX_def
        split: option.splits)
  define nw where "nw = max (real_of_int (fst z) + (fst (position ev) - fst sp)) 100"
  define nh where "nh = max (real_of_int (snd z) + (snd (position ev) - snd sp)) 100"
  have "100 \<le> nw" "nw \<le> real_of_int (fst z)" "100 \<le> nh" "nh \<le> real_of_int (snd z)"
    using assms(5,6) z by (simp_all add: nw_def nh_def)
  then have w: "100 \<le> py_int nw" "py_int nw \<le> fst z" and h: "100 \<le> py_int nh" "py_int nh \<le> snd z"
    by (simp_all add: py_int_def le_floor_iff floor_le_iff)
  then have fits: "fits_c_int (py_int nw)" "fits_c_int (py_int nh)"
    using z by (simp_all add: fits_c_int_def INT_MIN_def INT_MAX_def)
  have "mouseMoveEvent i ev s = try_update_note i (resize (py_int nw) (py_int nh)) s"
    using assms(3,4) z(1)
    by (simp add: mouseMoveEvent_def Let_def nw_def nh_def minimumWidth_def minimumHeight_def)
  also have "\<dots> = Inr (s\<lparr>note_list := (note_list s)
                 [i := ?self\<lparr>width := py_int nw, height := py_int nh\<rparr>]\<rparr>)"
    using w h z fits
    by (simp add: try_update_note_def resize_fits minimumWidth_def minimumHeight_def
        QWIDGETSIZE_MAX_def)
  finally show ?thesis
    using assms(2) w(1) h(1) by simp
qed


lemma move_not_fits:
  assumes "\<not> (fits_c_int a \<and> fits_c_int b)"
  shows "move a b n = Inl OverflowError"
  using assms by (cases "move a b n") (auto dest: move_Inl move_Inr)

lemma resize_not_fits:
  assumes "\<not> (fits_c_int w \<and> fits_c_int h)"
  shows "resize w h n = Inl OverflowError"
  using assms by (cases "resize w h n") (auto dest: resize_Inl resize_Inr)

text \<open>What a mouse move does to a note that is dragged or resized, for a pointer at
  integer coordinates, where the arithmetic of the program is exact.\<close>

lemma mouseMoveEvent_drag_int:
  assumes "dragging (note_list s ! i)" and "\<not> resizing (note_list s ! i)"
    and "start_pos (note_list s ! i) = Some (real_of_int c, real_of_int d)"
    and "position ev = (real_of_int a, real_of_int b)"
  shows "mouseMoveEvent i ev s =
           (if fits_c_int (pos_x (note_list s ! i) + (a - c)) \<and>
               fits_c_int (pos_y (note_list s ! i) + (b - d))
            then Inr (s\<lparr>note_list := (note_list s)
                        [i := (note_list s ! i)\<lparr>pos_x := pos_x (note_list s ! i) + (a - c),
                                                 pos_y := pos_y (note_list s ! i) + (b - d)\<rparr>]\<rparr>)
            else Inl OverflowError)"
proof -
  have dx: "py_int (real_of_int a - real_of_int c) = a - c"
    and dy: "py_int (real_of_int b - real_of_int d) = b - d"
    using py_int_of_int [of "a - c"] py_int_of_int [of "b - d"] by simp_all
  have "mouseMoveEvent i ev s =
          try_update_note i (move (pos_x (note_list s ! i) + (a - c))
                                  (pos_y (note_list s ! i) + (b - d))) s"
    using assms by (simp add: mouseMoveEvent_def Let_def try_update_note_def dx dy)
  then show ?thesis
    by (simp add: try_update_note_def move_fits move_not_fits)
qed

lemma mouseMoveEvent_resize_int:
  assumes "resizing (note_list s ! i)"
    and "start_pos (note_list s ! i) = Some (real_of_int c, real_of_int d)"
    and "start_size (note_list s ! i) = Some (w, h)"
    and "position ev = (real_of_int a, real_of_int b)"
  shows "mouseMoveEvent i ev s =
           (if fits_c_int (max (w + (a - c)) 100) \<and> fits_c_int (max (h + (b - d)) 100)
            then Inr (s\<lparr>note_list := (note_list s)
                        [i := (note_list s ! i)
                                \<lparr>width := min (max (w + (a - c)) 100) 16777215,
                                 height := min (max (h + (b - d)) 100) 16777215\<rparr>]\<rparr>)
            else Inl OverflowError)"
proof -
  have "max (real_of_int w + (real_of_int a - real_of_int c)) 100 =
          real_of_int (max (w + (a - c)) 100)"
    and "max (real_of_int h + (real_of_int b - real_of_int d)) 100 =
          real_of_int (max (h + (b - d)) 100)"
    by (simp_all add: max_def)
  then have "mouseMoveEvent i ev s =
          try_update_note i (resize (max (w + (a - c)) 100) (max (h + (b - d)) 100)) s"
    using assms
    by (simp add: mouseMoveEvent_def Let_def minimumWidth_def minimumHeight_def
        del: of_int_add of_int_diff)
  then show ?thesis
    by (simp add: try_update_note_def resize_fits resize_not_fits minimumWidth_def
        minimumHeight_def QWIDGETSIZE_MAX_def max_def min_def)
qed


section \<open>Runs of the program\<close>

text \<open>The definitions that evaluate a run on concrete events.\<close>

lemmas eval_defs = session_def load_notes_def startup_def hotkey_note_def blank_note_created
  textChanged_def on_text_changed_def mousePressEvent_def mouseMoveEvent_def mouseReleaseEvent_def
  Let_def press_corner_def move_far_def press_body_def move_body_def right_press_def
  fresh_note_def show_note_def resize_def move_def c_int_def fits_c_int_def INT_MIN_def INT_MAX_def
  try_update_note_def py_int_def minimumWidth_def minimumHeight_def
  QWIDGETSIZE_MAX_def resize_margin_def update_note_def save_notes_def note_record_def

subsection \<open>The minimum size\<close>

text \<open>
  Claim C5. In every state that a run of the program reaches, from any file that loads
  and through any events, every note is at least 100 wide and 100 high. A mouse move on
  any note of such a state, with any pointer position, either leaves every note at
  least 100 by 100 or raises OverflowError, which it does when the new size or position
  does not fit a C int. A resize with the pointer above and to the left of where it was
  pressed, however far, does not fail, and the note is at least 100 by 100 after it:
  the resize takes the larger of the new size and the minimum size.
\<close>

theorem sizes_never_below_minimum:
  assumes "session p f evs = Inr s"
  shows "list_all (\<lambda>n. 100 \<le> width n \<and> 100 \<le> height n) (note_list s) \<and>
         (\<forall>i ev. i < length (note_list s) \<longrightarrow>
            (case mouseMoveEvent i ev s of
               Inr s' \<Rightarrow> list_all (\<lambda>n. 100 \<le> width n \<and> 100 \<le> height n) (note_list s')
             | Inl err \<Rightarrow> err = OverflowError)) \<and>
         (\<forall>i ev sp. i < length (note_list s) \<and> resizing (note_list s ! i) \<and>
                    start_pos (note_list s ! i) = Some sp \<and>
                    fst (position ev) \<le> fst sp \<and> snd (position ev) \<le> snd sp \<longrightarrow>
            (\<exists>s'. mouseMoveEvent i ev s = Inr s' \<and>
                  100 \<le> width (note_list s' ! i) \<and> 100 \<le> height (note_list s' ! i)))"
proof -
  have floor: "list_all (\<lambda>n. 100 \<le> width n \<and> 100 \<le> height n) (note_list u)" if "app_ok u" for u
    using that
    by (auto simp: app_ok_def note_inv_def size_ok_def list_all_iff minimumWidth_def minimumHeight_def)
  have ok: "app_ok s"
    using session_ok [OF assms] by simp
  have "case mouseMoveEvent i ev s of
          Inr s' \<Rightarrow> list_all (\<lambda>n. 100 \<le> width n \<and> 100 \<le> height n) (note_list s')
        | Inl err \<Rightarrow> err = OverflowError"
    if "i < length (note_list s)" for i ev
  proof (cases "mouseMoveEvent i ev s")
    case (Inl err)
    then show ?thesis
      using mouseMoveEvent_Inl [OF Inl ok that] by simp
  next
    case (Inr s')
    then show ?thesis
      using mouseMoveEvent_Inr [OF Inr ok that] floor by simp
  qed
  moreover have "\<exists>s'. mouseMoveEvent i ev s = Inr s' \<and>
                  100 \<le> width (note_list s' ! i) \<and> 100 \<le> height (note_list s' ! i)"
    if "i < length (note_list s)" "resizing (note_list s ! i)"
      "start_pos (note_list s ! i) = Some sp"
      "fst (position ev) \<le> fst sp" "snd (position ev) \<le> snd sp" for i ev sp
    using mouseMoveEvent_shrink [OF ok that] .
  ultimately show ?thesis
    using floor [OF ok] by blast
qed

theorem sizes_never_below_minimum_witness:
  "session (860, 440) None [Hotkey, MousePress 0 press_corner, MouseMove 0 move_far] =
     Inr \<lparr>note_list =
            [\<lparr>plain_text = [], pos_x = 860, pos_y = 440, width = 100, height = 100,
              dragging = False, resizing = True, start_pos = Some (190, 190),
              start_size = Some (200, 200)\<rparr>],
          store = None, sticky_notes_app = True, clipboard = [], default_position = (860, 440)\<rparr> \<and>
   list_all (\<lambda>n. 100 \<le> width n \<and> 100 \<le> height n)
     [\<lparr>plain_text = [], pos_x = 860, pos_y = 440, width = 100, height = 100,
       dragging = False, resizing = True, start_pos = Some (190, 190),
       start_size = Some (200, 200)\<rparr>]"
proof -
  have run: "session (860, 440) None [Hotkey, MousePress 0 press_corner, MouseMove 0 move_far] =
     Inr \<lparr>note_list =
            [\<lparr>plain_text = [], pos_x = 860, pos_y = 440, width = 100, height = 100,
              dragging = False, resizing = True, start_pos = Some (190, 190),
              start_size = Some (200, 200)\<rparr>],
          store = None, sticky_notes_app = True, clipboard = [], default_position = (860, 440)\<rparr>"
    by (simp add: eval_defs)
  show ?thesis
    using run sizes_never_below_minimum [OF run] by simp
qed

subsection \<open>Gestures and the file\<close>

text \<open>
  Claim C3, as the program has it. In every state that a run reaches, a mouse press, a
  mouse move and a mouse release on a note leave the file as it was; a mouse move that
  is not handled has raised OverflowError, and has written nothing either. A change of
  the text rewrites the file from the whole list, with the geometry the notes have then.
  What a move changes is the note in memory. With the pointer at integer coordinates:
  a note that is dragged is moved by the distance of the pointer from where it was
  pressed, and a note that is resized gets its size at the press plus that distance, at
  least 100 and at most 16777215; both raise OverflowError when a new value does not
  fit a C int.
\<close>

theorem gestures_do_not_save:
  assumes "session p f evs = Inr s" and "i < length (note_list s)"
  shows "store (mousePressEvent i ev s) = store s \<and>
         (case mouseMoveEvent i ev s of
            Inr s' \<Rightarrow> store s' = store s
          | Inl err \<Rightarrow> err = OverflowError) \<and>
         store (mouseReleaseEvent i ev s) = store s \<and>
         store (textChanged i t s) = Some (Json (JArr (map note_record (note_list (textChanged i t s))))) \<and>
         (\<forall>a b c d.
            dragging (note_list s ! i) \<and> \<not> resizing (note_list s ! i) \<and>
            start_pos (note_list s ! i) = Some (real_of_int c, real_of_int d) \<and>
            position ev = (real_of_int a, real_of_int b) \<longrightarrow>
            mouseMoveEvent i ev s =
              (if fits_c_int (pos_x (note_list s ! i) + (a - c)) \<and>
                  fits_c_int (pos_y (note_list s ! i) + (b - d))
               then Inr (s\<lparr>note_list := (note_list s)
                           [i := (note_list s ! i)\<lparr>pos_x := pos_x (note_list s ! i) + (a - c),
                                                    pos_y := pos_y (note_list s ! i) + (b - d)\<rparr>]\<rparr>)
               else Inl OverflowError)) \<and>
         (\<forall>a b c d w h.
            resizing (note_list s ! i) \<and>
            start_pos (note_list s ! i) = Some (real_of_int c, real_of_int d) \<and>
            start_size (note_list s ! i) = Some (w, h) \<and>
            position ev = (real_of_int a, real_of_int b) \<longrightarrow>
            mouseMoveEvent i ev s =
              (if fits_c_int (max (w + (a - c)) 100) \<and> fits_c_int (max (h + (b - d)) 100)
               then Inr (s\<lparr>note_list := (note_list s)
                           [i := (note_list s ! i)
                                   \<lparr>width := min (max (w + (a - c)) 100) 16777215,
                                    height := min (max (h + (b - d)) 100) 16777215\<rparr>]\<rparr>)
               else Inl OverflowError))"
proof -
  have ok: "app_ok s"
    using session_ok [OF assms(1)] by simp
  then have "sticky_notes_app s"
    by (simp add: app_ok_def)
  then have txt_saved: "store (textChanged i t s) =
      Some (Json (JArr (map note_record (note_list (textChanged i t s)))))"
    by (simp add: textChanged_def on_text_changed_def)
  have mv: "case mouseMoveEvent i ev s of
              Inr s' \<Rightarrow> store s' = store s
            | Inl err \<Rightarrow> err = OverflowError"
  proof (cases "mouseMoveEvent i ev s")
    case (Inl err)
    then show ?thesis
      using mouseMoveEvent_Inl [OF Inl ok assms(2)] by simp
  next
    case (Inr s')
    then show ?thesis
      using mouseMoveEvent_Inr [OF Inr ok assms(2)] by simp
  qed
  show ?thesis
    using txt_saved mv mousePressEvent_ok [OF ok, of i ev] mouseReleaseEvent_ok [OF ok, of i ev]
      mouseMoveEvent_drag_int [of s i _ _ ev] mouseMoveEvent_resize_int [of s i _ _ _ _ ev]
    by (intro conjI allI impI) (simp_all only:, blast+)
qed


theorem gestures_do_not_save_witness:
  "session (860, 440) None [Hotkey, TextChanged 0 ''a'', MousePress 0 press_body] =
     Inr \<lparr>note_list =
            [\<lparr>plain_text = ''a'', pos_x = 860, pos_y = 440, width = 200, height = 200,
              dragging = True, resizing = False, start_pos = Some (10, 50), start_size = None\<rparr>],
          store = Some (Json (JArr [JObj [(''text'', JStr ''a''), (''x'', JInt 860), (''y'', JInt 440),
                    (''width'', JInt 200), (''height'', JInt 200)]])),
          sticky_notes_app = True, clipboard = [], default_position = (860, 440)\<rparr> \<and>
   mouseMoveEvent 0 move_body
     \<lparr>note_list =
        [\<lparr>plain_text = ''a'', pos_x = 860, pos_y = 440, width = 200, height = 200,
          dragging = True, resizing = False, start_pos = Some (10, 50), start_size = None\<rparr>],
      store = Some (Json (JArr [JObj [(''text'', JStr ''a''), (''x'', JInt 860), (''y'', JInt 440),
                (''width'', JInt 200), (''height'', JInt 200)]])),
      sticky_notes_app = True, clipboard = [], default_position = (860, 440)\<rparr> =
     Inr \<lparr>note_list =
            [\<lparr>plain_text = ''a'', pos_x = 890, pos_y = 460, width = 200, height = 200,
              dragging = True, resizing = False, start_pos = Some (10, 50), start_size = None\<rparr>],
          store = Some (Json (JArr [JObj [(''text'', JStr ''a''), (''x'', JInt 860), (''y'', JInt 440),
                    (''width'', JInt 200), (''height'', JInt 200)]])),
          sticky_notes_app = True, clipboard = [], default_position = (860, 440)\<rparr>"
proof -
  let ?s = "\<lparr>note_list =
            [\<lparr>plain_text = ''a'', pos_x = 860, pos_y = 440, width = 200, height = 200,
              dragging = True, resizing = False, start_pos = Some (10, 50), start_size = None\<rparr>],
          store = Some (Json (JArr [JObj [(''text'', JStr ''a''), (''x'', JInt 860), (''y'', JInt 440),
                    (''width'', JInt 200), (''height'', JInt 200)]])),
          sticky_notes_app = True, clipboard = [], default_position = (860, 440)\<rparr>"
  have run: "session (860, 440) None [Hotkey, TextChanged 0 ''a'', MousePress 0 press_body] = Inr ?s"
    by (simp add: eval_defs)
  have len: "(0::nat) < length (note_list ?s)"
    by simp
  have drag: "dragging (note_list ?s ! 0) \<and> \<not> resizing (note_list ?s ! 0) \<and>
      start_pos (note_list ?s ! 0) = Some (real_of_int 10, real_of_int 50) \<and>
      position move_body = (real_of_int 40, real_of_int 70)"
    by (simp add: move_body_def)
  have "mouseMoveEvent 0 move_body ?s =
          (if fits_c_int (pos_x (note_list ?s ! 0) + (40 - 10)) \<and>
              fits_c_int (pos_y (note_list ?s ! 0) + (70 - 50))
           then Inr (?s\<lparr>note_list := (note_list ?s)
                       [0 := (note_list ?s ! 0)\<lparr>pos_x := pos_x (note_list ?s ! 0) + (40 - 10),
                                                 pos_y := pos_y (note_list ?s ! 0) + (70 - 50)\<rparr>]\<rparr>)
           else Inl OverflowError)"
    using gestures_do_not_save [OF run len, of move_body] drag by blast
  then show ?thesis
    using run by (simp add: fits_c_int_def INT_MIN_def INT_MAX_def)
qed

text \<open>The claim as written fails: after a note is created at (860, 440), typed into
  and dragged by (30, 20), the note is at (890, 460) and the file still has it at
  (860, 440).\<close>

theorem drag_leaves_store_stale:
  "session (860, 440) None [Hotkey, TextChanged 0 ''a'', MousePress 0 press_body, MouseMove 0 move_body,
                 MouseRelease 0 move_body] =
     Inr \<lparr>note_list =
            [\<lparr>plain_text = ''a'', pos_x = 890, pos_y = 460, width = 200, height = 200,
              dragging = False, resizing = False, start_pos = None, start_size = None\<rparr>],
          store = Some (Json (JArr [JObj [(''text'', JStr ''a''), (''x'', JInt 860), (''y'', JInt 440),
                    (''width'', JInt 200), (''height'', JInt 200)]])),
          sticky_notes_app = True, clipboard = [], default_position = (860, 440)\<rparr> \<and>
   Some (Json (JArr [JObj [(''text'', JStr ''a''), (''x'', JInt 860), (''y'', JInt 440),
                    (''width'', JInt 200), (''height'', JInt 200)]])) \<noteq>
   Some (Json (JArr (map note_record
            [\<lparr>plain_text = ''a'', pos_x = 890, pos_y = 460, width = 200, height = 200,
              dragging = False, resizing = False, start_pos = None, start_size = None\<rparr>])))"
  by (simp add: eval_defs)

subsection \<open>Drag or resize\<close>

text \<open>
  Claim C6, as the program has it. Take a note of the list with no gesture in progress
  (both flags clear, as after \<^verbatim>\<open>__init__\<close> and after every release) and of a size the
  program's windows have. A press of the left button, unless Control alone is held,
  enters exactly one of the two states: resizing when the pointer is within the margin
  of 25 pixels of the right and the bottom edge, dragging otherwise (the third test of
  the program, below the toolbar's 40 pixels, follows from the second, since a note is
  at least 100 high). A press of another button, or a left press with Control alone
  held, enters neither. A release clears both.
\<close>

theorem press_enters_one_gesture:
  assumes "i < length (note_list s)" and "size_ok (note_list s ! i)"
    and "\<not> dragging (note_list s ! i)" and "\<not> resizing (note_list s ! i)"
  shows "(if button ev = LeftButton \<and> modifiers ev \<noteq> {ControlModifier}
          then resizing (note_list (mousePressEvent i ev s) ! i) =
                 (fst (position ev) > real_of_int (width (note_list s ! i) - resize_margin) \<and>
                  snd (position ev) > real_of_int (height (note_list s ! i) - resize_margin)) \<and>
               dragging (note_list (mousePressEvent i ev s) ! i) =
                 (\<not> resizing (note_list (mousePressEvent i ev s) ! i))
          else \<not> dragging (note_list (mousePressEvent i ev s) ! i) \<and>
               \<not> resizing (note_list (mousePressEvent i ev s) ! i)) \<and>
         \<not> dragging (note_list (mouseReleaseEvent i ev' (mousePressEvent i ev s)) ! i) \<and>
         \<not> resizing (note_list (mouseReleaseEvent i ev' (mousePressEvent i ev s)) ! i)"
proof -
  have len: "i < length (note_list (mousePressEvent i ev s))"
    using assms(1) by (simp add: mousePressEvent_def copy_with_feedback_def Let_def)
  have "40 < snd (position ev)"
    if "snd (position ev) > real_of_int (height (note_list s ! i) - resize_margin)"
  proof -
    have "(75::real) \<le> real_of_int (height (note_list s ! i) - resize_margin)"
      using assms(2) by (simp add: size_ok_def minimumHeight_def resize_margin_def)
    then show ?thesis using that by linarith
  qed
  then show ?thesis
    using assms len
    by (auto simp: mousePressEvent_def mouseReleaseEvent_def copy_with_feedback_def Let_def)
qed

theorem press_enters_one_gesture_witness:
  "(0::nat) < length (note_list one_note) \<and> size_ok (note_list one_note ! 0) \<and>
   \<not> dragging (note_list one_note ! 0) \<and> \<not> resizing (note_list one_note ! 0) \<and>
   resizing (note_list (mousePressEvent 0 press_corner one_note) ! 0) \<and>
   \<not> dragging (note_list (mousePressEvent 0 press_corner one_note) ! 0) \<and>
   \<not> dragging (note_list (mouseReleaseEvent 0 move_far (mousePressEvent 0 press_corner one_note)) ! 0) \<and>
   \<not> resizing (note_list (mouseReleaseEvent 0 move_far (mousePressEvent 0 press_corner one_note)) ! 0)"
proof -
  have a: "(0::nat) < length (note_list one_note)" and b: "size_ok (note_list one_note ! 0)"
    and c: "\<not> dragging (note_list one_note ! 0)" and d: "\<not> resizing (note_list one_note ! 0)"
    by (simp_all add: one_note_def fresh_note_def size_ok_def minimumWidth_def minimumHeight_def
        QWIDGETSIZE_MAX_def)
  have e: "button press_corner = LeftButton \<and> modifiers press_corner \<noteq> {ControlModifier}"
    by (simp add: press_corner_def)
  have f: "fst (position press_corner) > real_of_int (width (note_list one_note ! 0) - resize_margin) \<and>
           snd (position press_corner) > real_of_int (height (note_list one_note ! 0) - resize_margin)"
    by (simp add: press_corner_def one_note_def fresh_note_def resize_margin_def)
  show ?thesis
    using a b c d e f press_enters_one_gesture [OF a b c d, of press_corner move_far] by simp
qed

text \<open>The claim as written fails: a press of the right button enters neither state.\<close>

theorem right_press_enters_no_gesture:
  "\<not> dragging (note_list (mousePressEvent 0 right_press one_note) ! 0) \<and>
   \<not> resizing (note_list (mousePressEvent 0 right_press one_note) ! 0)"
  by (simp add: mousePressEvent_def right_press_def one_note_def fresh_note_def)

section \<open>Loading a malformed file\<close>

lemma load_record_missing_key:
  assumes "missing_key r"
  shows "\<exists>e. load_record r s = Inl e"
proof -
  obtain kvs where r: "r = JObj kvs"
    using assms by (cases r) simp_all
  show ?thesis
  proof (cases "load_record r s")
    case (Inl e)
    then show ?thesis by blast
  next
    case (Inr s')
    then obtain t a b c d where
      "getitem r ''text'' = Inr t" "getitem r ''x'' = Inr a" "getitem r ''y'' = Inr b"
      "getitem r ''width'' = Inr c" "getitem r ''height'' = Inr d"
      unfolding load_record_def by (auto elim!: and_then_InrE)
    then have "\<forall>k \<in> set record_keys. map_of kvs k \<noteq> None"
      unfolding r by (auto simp: record_keys_def split: option.splits)
    then show ?thesis
      using assms unfolding r by (auto simp: list_ex_iff)
  qed
qed

lemma load_loop_missing_key:
  assumes "list_ex missing_key rs"
  shows "\<exists>e. load_loop rs s = Inl e"
  using assms
proof (induction rs arbitrary: s)
  case Nil
  then show ?case by simp
next
  case (Cons r rs)
  show ?case
  proof (cases "load_record r s")
    case (Inl e)
    then show ?thesis by simp
  next
    case (Inr s1)
    then have "\<not> missing_key r"
      using load_record_missing_key [of r s] by auto
    then have "list_ex missing_key rs"
      using Cons.prems by simp
    then show ?thesis
      using Cons.IH [of s1] Inr by simp
  qed
qed

text \<open>
  Claim C8. Loading has no error handling. A file that is not JSON makes
  \<^verbatim>\<open>load_notes\<close> at startup, and with it the whole run, fail with JSONDecodeError.
  A JSON array with a record that lacks one of the keys text, x, y, width, height makes
  them fail as well, whatever the other records are: no state comes back, so no record
  is skipped and nothing is recovered.
\<close>

theorem malformed_store_fails_startup:
  "(load_notes (startup p (Some NotJson)) = Inl JSONDecodeError \<and>
    session p (Some NotJson) evs = Inl JSONDecodeError) \<and>
   (list_ex missing_key rs \<longrightarrow>
      (\<exists>e. load_notes (startup p (Some (Json (JArr rs)))) = Inl e \<and>
           session p (Some (Json (JArr rs))) evs = Inl e))"
proof -
  have "\<exists>e. load_notes (startup p (Some (Json (JArr rs)))) = Inl e \<and>
           session p (Some (Json (JArr rs))) evs = Inl e" if bad: "list_ex missing_key rs"
  proof -
    obtain e where "load_loop rs (startup p (Some (Json (JArr rs)))) = Inl e"
      using load_loop_missing_key [OF bad] by blast
    then show ?thesis
      by (simp add: load_notes_def session_def startup_def)
  qed
  then show ?thesis
    by (simp add: load_notes_def session_def startup_def)
qed


theorem malformed_store_fails_startup_witness:
  "list_ex missing_key
     [note_record (fresh_note (860, 440) ''a''),
      JObj [(''text'', JStr ''b''), (''x'', JInt 1), (''y'', JInt 2), (''width'', JInt 150)]] \<and>
   load_notes (startup (860, 440) (Some (Json (JArr
     [note_record (fresh_note (860, 440) ''a''),
      JObj [(''text'', JStr ''b''), (''x'', JInt 1), (''y'', JInt 2), (''width'', JInt 150)]])))) =
     Inl (KeyError ''height'')"
proof -
  have a: "list_ex missing_key
     [note_record (fresh_note (860, 440) ''a''),
      JObj [(''text'', JStr ''b''), (''x'', JInt 1), (''y'', JInt 2), (''width'', JInt 150)]]"
    by (simp add: note_record_def record_keys_def)
  have "load_notes (startup (860, 440) (Some (Json (JArr
     [note_record (fresh_note (860, 440) ''a''),
      JObj [(''text'', JStr ''b''), (''x'', JInt 1), (''y'', JInt 2), (''width'', JInt 150)]])))) =
     Inl (KeyError ''height'')"
    by (simp add: eval_defs load_record_def QPoint_def QSize_def QPoint_bool_def QSize_bool_def
        create_note_safe_def StickyNote_init_def new_widget_def written_from_def)
  then show ?thesis
    using a malformed_store_fails_startup [where p = "(860, 440)" and evs = "[]" and rs = "[note_record (fresh_note (860, 440) ''a''),
      JObj [(''text'', JStr ''b''), (''x'', JInt 1), (''y'', JInt 2), (''width'', JInt 150)]]"]
    by simp
qed



section \<open>The shape of the file\<close>


text \<open>Every run has its history.\<close>

lemma run_trace:
  assumes "run es s = Inr s'"
  shows "\<exists>ss. trace es s = Inr ss \<and> last ss = s'"
  using assms
proof (induction es arbitrary: s)
  case Nil
  then show ?case by simp
next
  case (Cons e es)
  then obtain s1 where s1: "step e s = Inr s1" and rest: "run es s1 = Inr s'"
    by (auto elim!: and_then_InrE)
  obtain ss where ss: "trace es s1 = Inr ss" "last ss = s'"
    using Cons.IH [OF rest] by blast
  moreover have "ss \<noteq> []"
    using ss(1) by (cases es) (auto elim!: and_then_InrE)
  ultimately show ?case
    using s1 by simp
qed

lemma session_trace:
  assumes "session p f evs = Inr s"
  shows "\<exists>s0 ss. load_notes (startup p f) = Inr s0 \<and> trace evs s0 = Inr ss \<and> last ss = s"
proof -
  obtain s0 where "load_notes (startup p f) = Inr s0" "run evs s0 = Inr s"
    using assms unfolding session_def by (rule and_then_InrE)
  then show ?thesis
    using run_trace by blast
qed




end
